theory Spec2Isabelle
  imports Main "HOL-Library.AList"
begin

section \<open>Syntax trees and programs of the TypeScript host\<close>

text \<open>
  The language service works on the syntax trees of the TypeScript compiler. A node is
  modelled with the members that \<^verbatim>\<open>typescript_host.ts\<close> reads: its kind, its
  full start \<open>pos\<close>, \<open>getStart()\<close> (the start without leading trivia), \<open>getEnd()\<close>
  (which is also the member \<^verbatim>\<open>end\<close>), the \<^verbatim>\<open>text\<close> of a literal or identifier
  (empty for a node that has none),
  the properties \<^verbatim>\<open>name\<close>, \<^verbatim>\<open>expression\<close> and \<^verbatim>\<open>decorators\<close>, and the child
  nodes in the order in which \<^verbatim>\<open>ts.forEachChild\<close> visits them. The \<^verbatim>\<open>parent\<close>
  link is not a member of the model: a function that follows it takes the chain of
  ancestors, nearest first.

  Only the kinds that the source names are told apart; \<open>OtherToken\<close> stands for every
  other kind up to \<^verbatim>\<open>ts.SyntaxKind.LastToken\<close> and \<open>OtherNode\<close> for every other kind
  above it.
\<close>

datatype SyntaxKind =
    StringLiteral | NoSubstitutionTemplateLiteral | Identifier | OtherToken
  | PropertyAssignment | ObjectLiteralExpression | CallExpression | Decorator
  | ClassDeclaration | SourceFileKind | OtherNode

datatype Node =
  Node (kind: SyntaxKind) (pos: nat) (getStart: nat) (getEnd: nat)
       (nodeText: string) (nodeName: "Node option") (expression: "Node option")
       (decorators: "Node list option") (children: "Node list")

record SourceFile =
  fileName :: string
  sourceNode :: Node

datatype StaticSymbol = StaticSymbol (filePath: string) (staticName: string)

section \<open>Types and symbols of the type checker\<close>

text \<open>
  \<open>typeId\<close> is the identity of a \<^verbatim>\<open>ts.Type\<close> object: the source compares types with
  \<^verbatim>\<open>!=\<close>, which on objects is a comparison of identities.
\<close>

datatype tsSymbol = TsSymbol (symbolName: string)

datatype tsType =
  TsType (typeId: nat) (typeSymbol: "tsSymbol option") (typeArguments: "tsType list option")
         (getCallSignatures: "tsSignature list")
and tsSignature =
  TsSignature (getParameters: "tsSymbol list") (getReturnType: tsType)

datatype BuiltinType = Any | String | Number | Boolean | Undefined | Null | Unbound | Other

text \<open>
  The synthetic expressions that \<^verbatim>\<open>getBuiltinTypeFromTs\<close> builds, one per literal
  kind, before it asks the checker for their type.
\<close>

datatype SyntheticNode =
    AsExpression_True_Any | TrueKeyword | NullKeyword | NumericLiteral_in_Statement
  | NoSubstitutionTemplate | VoidExpression_Numeric

text \<open>
  The checker is an external collaborator; the record holds the calls the source makes.
  \<open>getNonNullableType\<close> is \<open>None\<close> for a compiler version without that function
  (\<^verbatim>\<open>typeof this.checker.getNonNullableType == 'function'\<close>). \<open>getTypeAtSynthetic\<close> is
  \<^verbatim>\<open>getTypeAtLocation\<close> on a synthetic expression parented on the given node, and
  \<open>getExportsOfModule\<close> takes the source file whose module symbol is asked for.
\<close>

record TypeChecker =
  getNonNullableType :: "(tsType \<Rightarrow> tsType) option"
  getTypeAtLocation :: "Node \<Rightarrow> tsType option"
  getTypeAtSynthetic :: "SyntheticNode \<Rightarrow> Node \<Rightarrow> tsType"
  getExportsOfModule :: "SourceFile \<Rightarrow> tsSymbol list"
  getDeclaredTypeOfSymbol :: "tsSymbol \<Rightarrow> tsType option"
  getProperty :: "tsType \<Rightarrow> string \<Rightarrow> tsSymbol option"
  getTypeOfSymbolAtLocation :: "tsSymbol \<Rightarrow> Node \<Rightarrow> tsType option"

text \<open>
  A program is an immutable snapshot; \<^verbatim>\<open>lastProgram != program\<close> compares object
  identities, which \<open>progId\<close> stands for.
\<close>

record Program =
  progId :: nat
  getSourceFiles :: "SourceFile list"
  getTypeChecker :: TypeChecker

definition Program_getSourceFile :: "Program \<Rightarrow> string \<Rightarrow> SourceFile option" where
  "Program_getSourceFile p fn = List.find (\<lambda>sf. fileName sf = fn) (getSourceFiles p)"

record TypeContext =
  ctxNode :: Node
  ctxProgram :: Program
  ctxChecker :: TypeChecker

record PipeInfo =
  pipeName :: string
  pipeSymbol :: StaticSymbol

text \<open>
  A thrown or reported value. \<open>Error\<close> is an object, with the members that the source
  reads from it; an empty \<open>message\<close> stands for a \<^verbatim>\<open>message\<close> that is falsy.
  \<open>Nullish\<close> is \<^verbatim>\<open>undefined\<close> or \<^verbatim>\<open>null\<close>: reading a member of it throws a
  type error.
\<close>

datatype Error = Error (message: string) (line: "nat option") (column: "nat option") | Nullish

text \<open>A call of a function of the compiler or of TypeScript returns or throws.\<close>

datatype 'a Outcome = Returns 'a | Throws Error

section \<open>The symbol abstraction layer\<close>

text \<open>
  The four implementations of \<^verbatim>\<open>Symbol\<close>. A \<open>SymbolWrapper\<close> holds the symbol after
  the constructor has resolved an alias. The memo fields (\<^verbatim>\<open>_tsType\<close>,
  \<^verbatim>\<open>_members\<close>) are not modelled: they cache a value that is a function of the other
  fields.
\<close>

datatype Symbol =
    TypeWrapper (tsType: tsType) (typeContext: TypeContext)
  | SymbolWrapper tsSymbol TypeContext
  | DeclaredSymbol SymbolDeclaration
  | PipeSymbol PipeInfo TypeContext
and SymbolDeclaration =
  SymbolDeclaration (declName: string) (declKind: string) (declType: Symbol)

datatype Signature =
    SignatureWrapper tsSignature TypeContext
  | SignatureResultOverride "Signature option" Symbol

fun Symbol_name :: "Symbol \<Rightarrow> string" where
  "Symbol_name (TypeWrapper t c) =
     (case typeSymbol t of
        Some s \<Rightarrow> (if symbolName s \<noteq> [] then symbolName s else ''<anonymous>'')
      | None \<Rightarrow> ''<anonymous>'')"
| "Symbol_name (SymbolWrapper s c) = symbolName s"
| "Symbol_name (DeclaredSymbol d) = declName d"
| "Symbol_name (PipeSymbol p c) = pipeName p"

fun Signature_result :: "Signature \<Rightarrow> Symbol" where
  "Signature_result (SignatureWrapper sg c) = TypeWrapper (getReturnType sg) c"
| "Signature_result (SignatureResultOverride sg r) = r"

definition getBuiltinTypeFromTs :: "BuiltinType \<Rightarrow> TypeContext \<Rightarrow> Error + tsType" where
  "getBuiltinTypeFromTs k c =
     (let checker = ctxChecker c; node = ctxNode c in
      case k of
        Any \<Rightarrow> Inr (getTypeAtSynthetic checker AsExpression_True_Any node)
      | Boolean \<Rightarrow> Inr (getTypeAtSynthetic checker TrueKeyword node)
      | Null \<Rightarrow> Inr (getTypeAtSynthetic checker NullKeyword node)
      | Number \<Rightarrow> Inr (getTypeAtSynthetic checker NumericLiteral_in_Statement node)
      | String \<Rightarrow> Inr (getTypeAtSynthetic checker NoSubstitutionTemplate node)
      | Undefined \<Rightarrow> Inr (getTypeAtSynthetic checker VoidExpression_Numeric node)
      | _ \<Rightarrow> Inl (Error ''Internal error, unhandled literal kind'' None None))"

definition getTypeParameterOf :: "tsType \<Rightarrow> string \<Rightarrow> tsType option" where
  "getTypeParameterOf t n =
     (case typeSymbol t of
        None \<Rightarrow> None
      | Some s \<Rightarrow>
          if symbolName s = n then
            (case typeArguments t of
               None \<Rightarrow> None
             | Some args \<Rightarrow> if length args \<le> 1 then (case args of [] \<Rightarrow> None | a # _ \<Rightarrow> Some a)
                             else None)
          else None)"

definition selectSignature :: "tsType \<Rightarrow> TypeContext \<Rightarrow> Symbol list \<Rightarrow> Signature option" where
  "selectSignature t c types =
     (case getCallSignatures t of
        [] \<Rightarrow> None
      | sg # _ \<Rightarrow> Some (SignatureWrapper sg c))"

definition findClassSymbolInContext :: "StaticSymbol \<Rightarrow> TypeContext \<Rightarrow> tsSymbol option" where
  "findClassSymbolInContext t c =
     (case Program_getSourceFile (ctxProgram c) (filePath t) of
        None \<Rightarrow> None
      | Some sf \<Rightarrow>
          List.find (\<lambda>s. symbolName s = staticName t) (getExportsOfModule (ctxChecker c) sf))"

definition findTransformMethodType :: "TypeContext \<Rightarrow> tsSymbol \<Rightarrow> tsType option" where
  "findTransformMethodType c classSymbol =
     (case getDeclaredTypeOfSymbol (ctxChecker c) classSymbol of
        None \<Rightarrow> None
      | Some classType \<Rightarrow>
          (case getProperty (ctxChecker c) classType ''transform'' of
             None \<Rightarrow> None
           | Some transform \<Rightarrow> getTypeOfSymbolAtLocation (ctxChecker c) transform (ctxNode c)))"

definition PipeSymbol_tsType :: "PipeInfo \<Rightarrow> TypeContext \<Rightarrow> Error + tsType" where
  "PipeSymbol_tsType p c =
     (case (case findClassSymbolInContext (pipeSymbol p) c of
              None \<Rightarrow> None
            | Some classSymbol \<Rightarrow> findTransformMethodType c classSymbol) of
        Some t \<Rightarrow> Inr t
      | None \<Rightarrow> getBuiltinTypeFromTs Any c)"

text \<open>
  \<^verbatim>\<open>PipeSymbol.selectSignature\<close>. The signature selected from the pipe's transform
  method may be absent (the source asserts it with \<^verbatim>\<open>!\<close> and passes it on), so the
  overridden signature holds an optional one.
\<close>

definition PipeSymbol_selectSignature ::
  "PipeInfo \<Rightarrow> TypeContext \<Rightarrow> Symbol list \<Rightarrow> Error + Signature option" where
  "PipeSymbol_selectSignature p c types =
     (case PipeSymbol_tsType p c of
        Inl e \<Rightarrow> Inl e
      | Inr pt \<Rightarrow>
          (let signature = selectSignature pt c types in
           case types of
             [parameterType] \<Rightarrow>
               (case parameterType of
                  TypeWrapper paramTs paramCtx \<Rightarrow>
                    (let pname = Symbol_name parameterType;
                         resultType =
                           (if pipeName p = ''async'' then
                              (if pname = ''Observable'' \<or> pname = ''Promise''
                                  \<or> pname = ''EventEmitter''
                               then Inr (getTypeParameterOf paramTs pname)
                               else map_sum id Some (getBuiltinTypeFromTs Any c))
                            else if pipeName p = ''slice'' then
                              Inr (getTypeParameterOf paramTs ''Array'')
                            else Inr None)
                     in case resultType of
                          Inl e \<Rightarrow> Inl e
                        | Inr None \<Rightarrow> Inr signature
                        | Inr (Some rt) \<Rightarrow>
                            Inr (Some (SignatureResultOverride signature
                                         (TypeWrapper rt paramCtx))))
                | _ \<Rightarrow> Inr signature)
           | _ \<Rightarrow> Inr signature))"

subsection \<open>TypeScriptSymbolQuery\<close>

text \<open>
  The fields of the query that the modelled methods read, and the memo table of
  \<^verbatim>\<open>getBuiltinType\<close>. A method returns its result with the query it leaves behind, or
  the error it throws.
\<close>

record TypeScriptSymbolQuery =
  qProgram :: Program
  qChecker :: TypeChecker
  qSource :: SourceFile
  typeCache :: "(BuiltinType \<times> Symbol) list"

definition queryContext :: "TypeScriptSymbolQuery \<Rightarrow> TypeContext" where
  "queryContext q =
     \<lparr>ctxNode = sourceNode (qSource q), ctxProgram = qProgram q, ctxChecker = qChecker q\<rparr>"

definition getBuiltinType ::
  "TypeScriptSymbolQuery \<Rightarrow> BuiltinType \<Rightarrow> Error + (Symbol \<times> TypeScriptSymbolQuery)" where
  "getBuiltinType q k =
     (case map_of (typeCache q) k of
        Some r \<Rightarrow> Inr (r, q)
      | None \<Rightarrow>
          (case getBuiltinTypeFromTs k (queryContext q) of
             Inl e \<Rightarrow> Inl e
           | Inr t \<Rightarrow>
               (let r = TypeWrapper t (queryContext q)
                in Inr (r, q\<lparr>typeCache := AList.update k r (typeCache q)\<rparr>))))"

definition getTypeUnion ::
  "TypeScriptSymbolQuery \<Rightarrow> Symbol list \<Rightarrow> Error + (Symbol \<times> TypeScriptSymbolQuery)" where
  "getTypeUnion q types =
     (if length types \<noteq> 0 then Inr (types ! (length types - 1), q)
      else getBuiltinType q Any)"

definition TypeScriptSymbolQuery_getNonNullableType ::
  "TypeScriptSymbolQuery \<Rightarrow> Symbol \<Rightarrow> Error + (Symbol \<times> TypeScriptSymbolQuery)" where
  "TypeScriptSymbolQuery_getNonNullableType q symbol =
     (case symbol of
        TypeWrapper ts ctx \<Rightarrow>
          (case getNonNullableType (qChecker q) of
             Some nonNullable \<Rightarrow>
               (let nonNullableType = nonNullable ts in
                if typeId nonNullableType \<noteq> typeId ts
                then Inr (TypeWrapper nonNullableType ctx, q)
                else getBuiltinType q Any)
           | None \<Rightarrow> getBuiltinType q Any)
      | _ \<Rightarrow> getBuiltinType q Any)"

subsection \<open>MapSymbolTable\<close>

text \<open>
  The table is generic in the symbol: \<open>name\<close> reads a symbol's \<^verbatim>\<open>name\<close>, and equality
  on \<open>'s\<close> is the identity of symbol objects (\<^verbatim>\<open>indexOf\<close> compares with
  \<^verbatim>\<open>===\<close>). \<open>tableMap\<close> is the \<^verbatim>\<open>Map\<close>, in insertion order; \<open>tableValues\<close> is the array
  \<^verbatim>\<open>_values\<close>.
\<close>

record 's MapSymbolTable =
  tableMap :: "(string \<times> 's) list"
  tableValues :: "'s list"

definition MapSymbolTable_new :: "'s MapSymbolTable" where
  "MapSymbolTable_new = \<lparr>tableMap = [], tableValues = []\<rparr>"

definition MapSymbolTable_size :: "'s MapSymbolTable \<Rightarrow> nat" where
  "MapSymbolTable_size t = length (tableMap t)"

definition MapSymbolTable_get :: "'s MapSymbolTable \<Rightarrow> string \<Rightarrow> 's option" where
  "MapSymbolTable_get t key = map_of (tableMap t) key"

definition MapSymbolTable_has :: "'s MapSymbolTable \<Rightarrow> string \<Rightarrow> bool" where
  "MapSymbolTable_has t key = (map_of (tableMap t) key \<noteq> None)"

definition MapSymbolTable_values :: "'s MapSymbolTable \<Rightarrow> 's list" where
  "MapSymbolTable_values t = tableValues t"

text \<open>\<^verbatim>\<open>Array.prototype.indexOf\<close>: the first index of the element, or -1.\<close>

fun indexOf :: "'a list \<Rightarrow> 'a \<Rightarrow> int" where
  "indexOf [] x = - 1"
| "indexOf (y # ys) x =
     (if y = x then 0 else (let i = indexOf ys x in if i < 0 then - 1 else i + 1))"

text \<open>
  \<^verbatim>\<open>add\<close>. An assignment at index -1 sets a property of the array that is not an
  element, so the elements stay as they are; any other index that \<open>indexOf\<close> returns
  is in range.
\<close>

definition MapSymbolTable_add ::
  "('s \<Rightarrow> string) \<Rightarrow> 's \<Rightarrow> 's MapSymbolTable \<Rightarrow> 's MapSymbolTable" where
  "MapSymbolTable_add name symbol t =
     (let vs =
        (if MapSymbolTable_has t (name symbol) then
           (case MapSymbolTable_get t (name symbol) of
              Some previous \<Rightarrow>
                (let i = indexOf (tableValues t) previous
                 in if i < 0 then tableValues t else (tableValues t)[nat i := symbol])
            | None \<Rightarrow> tableValues t)
         else tableValues t)
      in \<lparr>tableMap = AList.update (name symbol) symbol (tableMap t), tableValues = vs @ [symbol]\<rparr>)"

fun MapSymbolTable_addAll ::
  "('s \<Rightarrow> string) \<Rightarrow> 's list \<Rightarrow> 's MapSymbolTable \<Rightarrow> 's MapSymbolTable" where
  "MapSymbolTable_addAll name [] t = t"
| "MapSymbolTable_addAll name (s # ss) t =
     MapSymbolTable_addAll name ss (MapSymbolTable_add name s t)"

definition createSymbolTable :: "SymbolDeclaration list \<Rightarrow> Symbol MapSymbolTable" where
  "createSymbolTable symbols =
     MapSymbolTable_addAll Symbol_name (map DeclaredSymbol symbols) MapSymbolTable_new"

text \<open>
  \<^verbatim>\<open>mergeSymbolTable\<close> calls one member of each argument table, \<^verbatim>\<open>values()\<close>; an
  argument table is given by the array that call returns.
\<close>

definition mergeSymbolTable :: "('s \<Rightarrow> string) \<Rightarrow> 's list list \<Rightarrow> 's MapSymbolTable" where
  "mergeSymbolTable name symbolTables =
     fold (\<lambda>vs result. MapSymbolTable_addAll name vs result) symbolTables MapSymbolTable_new"

section \<open>Spans and the template locator\<close>

record Span =
  spanStart :: int
  spanEnd :: int

definition spanOf :: "Node \<Rightarrow> Span" where
  "spanOf node = \<lparr>spanStart = int (getStart node), spanEnd = int (getEnd node)\<rparr>"

definition shrink :: "Span \<Rightarrow> int option \<Rightarrow> Span" where
  "shrink sp offset =
     (let off = (case offset of None \<Rightarrow> 1 | Some k \<Rightarrow> k)
      in \<lparr>spanStart = spanStart sp + off, spanEnd = spanEnd sp - off\<rparr>)"

text \<open>
  \<^verbatim>\<open>findNode\<close>: the inner function \<^verbatim>\<open>find\<close>, and \<^verbatim>\<open>ts.forEachChild(node, find)\<close>,
  which returns the first result that is not undefined. The node found comes with its
  chain of ancestors, nearest first.
\<close>

fun findNode_find :: "nat \<Rightarrow> Node list \<Rightarrow> Node \<Rightarrow> (Node \<times> Node list) option"
  and findNode_forEachChild :: "nat \<Rightarrow> Node list \<Rightarrow> Node list \<Rightarrow> (Node \<times> Node list) option"
where
  "findNode_find position anc (Node k p st en tx nm ex ds cs) =
     (if st \<le> position \<and> position < en then
        (case findNode_forEachChild position (Node k p st en tx nm ex ds cs # anc) cs of
           Some r \<Rightarrow> Some r
         | None \<Rightarrow> Some (Node k p st en tx nm ex ds cs, anc))
      else None)"
| "findNode_forEachChild position anc [] = None"
| "findNode_forEachChild position anc (c # cs) =
     (case findNode_find position anc c of
        Some r \<Rightarrow> Some r
      | None \<Rightarrow> findNode_forEachChild position anc cs)"

definition findNode :: "SourceFile \<Rightarrow> nat \<Rightarrow> (Node \<times> Node list) option" where
  "findNode sourceFile position = findNode_find position [] (sourceNode sourceFile)"

definition missingTemplate :: "Node option \<times> Node option" where
  "missingTemplate = (None, None)"

text \<open>
  \<^verbatim>\<open>getTemplateClassDeclFromNode\<close>, on the ancestors of the token. Reading
  \<^verbatim>\<open>name.text\<close> of a property assignment without a name throws.
\<close>

definition getTemplateClassDeclFromNode :: "Node list \<Rightarrow> Error + (Node option \<times> Node option)" where
  "getTemplateClassDeclFromNode anc =
     (case anc of
        [] \<Rightarrow> Inr missingTemplate
      | assignment # anc1 \<Rightarrow>
          if kind assignment \<noteq> PropertyAssignment then Inr missingTemplate
          else
            (case nodeName assignment of
               None \<Rightarrow> Inl (Error ''TypeError: cannot read property text of undefined'' None None)
             | Some nm \<Rightarrow>
                 if nodeText nm \<noteq> ''template'' then Inr missingTemplate
                 else
                   (case anc1 of
                      [] \<Rightarrow> Inr missingTemplate
                    | objectLiteral # anc2 \<Rightarrow>
                        if kind objectLiteral \<noteq> ObjectLiteralExpression then Inr missingTemplate
                        else
                          (case anc2 of
                             [] \<Rightarrow> Inr missingTemplate
                           | call # anc3 \<Rightarrow>
                               if kind call \<noteq> CallExpression then Inr missingTemplate
                               else
                                 (let callTarget = expression call in
                                  case anc3 of
                                    [] \<Rightarrow> Inr missingTemplate
                                  | decorator # anc4 \<Rightarrow>
                                      if kind decorator \<noteq> Decorator then Inr missingTemplate
                                      else
                                        (case anc4 of
                                           [] \<Rightarrow> Inr missingTemplate
                                         | declaration # _ \<Rightarrow>
                                             if kind declaration \<noteq> ClassDeclaration
                                             then Inr missingTemplate
                                             else Inr (Some declaration, callTarget)))))))"

definition stringOf :: "Node \<Rightarrow> string option" where
  "stringOf node =
     (if kind node = NoSubstitutionTemplateLiteral then Some (nodeText node)
      else if kind node = StringLiteral then Some (nodeText node)
      else None)"

text \<open>
  A \<^verbatim>\<open>TemplateSource\<close> without its two lazy getters, \<^verbatim>\<open>members\<close> and \<^verbatim>\<open>query\<close>:
  they compute nothing until a consumer reads them.
\<close>

record TemplateSource =
  version :: string
  source :: string
  span :: Span
  type :: StaticSymbol

definition getSourceFromDeclaration ::
  "string \<Rightarrow> string \<Rightarrow> string \<Rightarrow> Span \<Rightarrow> StaticSymbol \<Rightarrow> Node option \<Rightarrow> TemplateSource option" where
  "getSourceFromDeclaration fileName' version' source' span' type' declaration =
     (case declaration of
        Some _ \<Rightarrow> Some \<lparr>version = version', source = source', span = span', type = type'\<rparr>
      | None \<Rightarrow> None)"

text \<open>
  \<^verbatim>\<open>spanAt\<close>. \<open>afterLastToken\<close> is \<^verbatim>\<open>node.kind > ts.SyntaxKind.LastToken\<close>; the
  position of a line and column is computed by \<^verbatim>\<open>ts.getPositionOfLineAndCharacter\<close>,
  which throws for a line that the file does not have, so it is a parameter that returns
  or throws.
\<close>

definition afterLastToken :: "SyntaxKind \<Rightarrow> bool" where
  "afterLastToken k \<longleftrightarrow>
     k \<noteq> StringLiteral \<and> k \<noteq> NoSubstitutionTemplateLiteral \<and> k \<noteq> Identifier \<and> k \<noteq> OtherToken"

fun spanAt_findChild :: "nat \<Rightarrow> Node \<Rightarrow> Node option"
  and spanAt_forEachChild :: "nat \<Rightarrow> Node list \<Rightarrow> Node option"
where
  "spanAt_findChild position (Node k p st en tx nm ex ds cs) =
     (if afterLastToken k \<and> p \<le> position \<and> en > position then
        (case spanAt_forEachChild position cs of
           Some betterNode \<Rightarrow> Some betterNode
         | None \<Rightarrow> Some (Node k p st en tx nm ex ds cs))
      else None)"
| "spanAt_forEachChild position [] = None"
| "spanAt_forEachChild position (c # cs) =
     (case spanAt_findChild position c of
        Some r \<Rightarrow> Some r
      | None \<Rightarrow> spanAt_forEachChild position cs)"

definition spanAt ::
  "(SourceFile \<Rightarrow> nat \<Rightarrow> nat \<Rightarrow> nat Outcome) \<Rightarrow> SourceFile \<Rightarrow> nat option \<Rightarrow> nat option
     \<Rightarrow> Error + Span option" where
  "spanAt getPositionOfLineAndCharacter sourceFile ln col =
     (case (ln, col) of
        (Some l, Some c) \<Rightarrow>
          (case getPositionOfLineAndCharacter sourceFile l c of
             Throws e \<Rightarrow> Inl e
           | Returns position \<Rightarrow>
               (case spanAt_forEachChild position (children (sourceNode sourceFile)) of
                  Some node \<Rightarrow>
                    Inr (Some \<lparr>spanStart = int (getStart node), spanEnd = int (getEnd node)\<rparr>)
                | None \<Rightarrow> Inr None))
      | _ \<Rightarrow> Inr None)"

section \<open>The service host and its invalidation cache\<close>

subsection \<open>External collaborators\<close>

text \<open>
  Modelled from the spec: the Static Symbol Resolver of \<^verbatim>\<open>@angular/compiler\<close>, which is
  not among the sources. It keeps per-file state that \<^verbatim>\<open>invalidateFile\<close> discards;
  \<open>metadataCache\<close> maps a file to the version stamp of the text that its cached state
  was resolved from. \<open>resolveFiles\<close> is a pass of the analysis over the files of the
  program: a file with cached state is seen as cached, any other file is read (and cached)
  at its current version.
\<close>

record StaticSymbolResolver =
  metadataCache :: "(string \<times> string) list"

definition StaticSymbolResolver_invalidateFile ::
  "string \<Rightarrow> StaticSymbolResolver \<Rightarrow> StaticSymbolResolver" where
  "StaticSymbolResolver_invalidateFile f r = r\<lparr>metadataCache := AList.delete f (metadataCache r)\<rparr>"

definition resolveFile ::
  "(string \<Rightarrow> string) \<Rightarrow> string \<Rightarrow> StaticSymbolResolver \<Rightarrow> StaticSymbolResolver" where
  "resolveFile currentVersion f r =
     (case map_of (metadataCache r) f of
        Some _ \<Rightarrow> r
      | None \<Rightarrow> r\<lparr>metadataCache := AList.update f (currentVersion f) (metadataCache r)\<rparr>)"

definition resolveFiles ::
  "(string \<Rightarrow> string) \<Rightarrow> string list \<Rightarrow> StaticSymbolResolver
     \<Rightarrow> (string \<times> string) list \<times> StaticSymbolResolver" where
  "resolveFiles currentVersion fs r =
     (let r' = fold (resolveFile currentVersion) fs r
      in (map (\<lambda>f. (f, case map_of (metadataCache r') f of Some v \<Rightarrow> v | None \<Rightarrow> currentVersion f)) fs,
          r'))"

text \<open>
  The objects of the compiler that the host creates and keeps; the host reads nothing
  from them but their presence. A \<open>ReflectorHost\<close> remembers the context file that it was
  created for.
\<close>

datatype ReflectorHost = ReflectorHost string
datatype StaticReflector = StaticReflector
datatype CompileMetadataResolver = CompileMetadataResolver

record CompileDirectiveMetadata =
  isComponent :: bool
  templateUrl :: "string option"

record NgModuleSummary =
  declaredDirectives :: "StaticSymbol list"

record NgAnalyzedModules =
  ngModules :: "NgModuleSummary list"

text \<open>
  A call into the compiler reports errors to the host's collector (each with the path of
  the file it is reported against) and then returns or throws.
\<close>

type_synonym 'a CompilerCall = "(Error \<times> string) list \<times> 'a Outcome"

text \<open>
  The environment of one operation of the host: what the TypeScript language service and
  its host answer, and what the compiler computes. \<open>extractProgramSymbols\<close> and
  \<open>analyzeNgModules\<close> are functions of what the static symbol resolver sees of the files,
  as pairs of file name and version stamp.
\<close>

record Env =
  getProgram :: Program
  getScriptVersion :: "string \<Rightarrow> string"
  getScriptFileNames :: "string list"
  getScriptSnapshot :: "string \<Rightarrow> string option"
  getPositionOfLineAndCharacter :: "SourceFile \<Rightarrow> nat \<Rightarrow> nat \<Rightarrow> nat Outcome"
  extractProgramSymbols :: "(string \<times> string) list \<Rightarrow> StaticSymbol list CompilerCall"
  analyzeNgModules ::
    "StaticSymbol list \<Rightarrow> (string \<times> string) list \<Rightarrow> NgAnalyzedModules CompilerCall"
  isDirective :: "StaticSymbol \<Rightarrow> bool CompilerCall"
  getNonNormalizedDirectiveMetadata ::
    "StaticSymbol \<Rightarrow> CompileDirectiveMetadata option CompilerCall"
  resolveTemplateUrl :: "StaticSymbol \<Rightarrow> string \<Rightarrow> string"

subsection \<open>The state of the host\<close>

text \<open>
  The private fields of \<^verbatim>\<open>TypeScriptServiceHost\<close>; a field that starts with an underscore
  in the source starts with \<open>p_\<close> here, and \<^verbatim>\<open>context\<close> is \<open>hostContext\<close>. The symbol
  cache and the summary resolver are left out: no modelled operation reads them.
\<close>

record Host =
  p_resolver :: "CompileMetadataResolver option"
  p_staticSymbolResolver :: "StaticSymbolResolver option"
  p_reflector :: "StaticReflector option"
  p_reflectorHost :: "ReflectorHost option"
  p_checker :: "TypeChecker option"
  p_typeCache :: "Symbol list"
  hostContext :: "string option"
  lastProgram :: "Program option"
  modulesOutOfDate :: bool
  analyzedModules :: "NgAnalyzedModules option"
  fileToComponent :: "(string \<times> StaticSymbol) list option"
  templateReferences :: "string list option"
  collectedErrors :: "(string \<times> Error list) list option"
  fileVersions :: "(string \<times> string) list"

text \<open>The host as its constructor leaves it.\<close>

definition newHost :: Host where
  "newHost =
     \<lparr>p_resolver = None, p_staticSymbolResolver = None, p_reflector = None,
      p_reflectorHost = None, p_checker = None, p_typeCache = [], hostContext = None,
      lastProgram = None, modulesOutOfDate = True, analyzedModules = None,
      fileToComponent = None, templateReferences = None, collectedErrors = None,
      fileVersions = []\<rparr>"

text \<open>
  An operation returns a value or throws, and in both cases leaves a state behind.
\<close>

type_synonym 'a Result = "(Error + 'a) \<times> Host"

definition andThen :: "'a Result \<Rightarrow> ('a \<Rightarrow> Host \<Rightarrow> 'b Result) \<Rightarrow> 'b Result" where
  "andThen m f = (case m of (Inl e, s) \<Rightarrow> (Inl e, s) | (Inr x, s) \<Rightarrow> f x s)"

definition getSourceFile :: "Env \<Rightarrow> string \<Rightarrow> SourceFile option" where
  "getSourceFile env fn = Program_getSourceFile (getProgram env) fn"

definition collectError :: "Error \<Rightarrow> string \<Rightarrow> Host \<Rightarrow> Host" where
  "collectError error fp s =
     (let errorMap = (case collectedErrors s of None \<Rightarrow> [] | Some m \<Rightarrow> m);
          errors = (case map_of errorMap fp of None \<Rightarrow> [] | Some es \<Rightarrow> es)
      in s\<lparr>collectedErrors := Some (AList.update fp (errors @ [error]) errorMap)\<rparr>)"

definition collectReported :: "(Error \<times> string) list \<Rightarrow> Host \<Rightarrow> Host" where
  "collectReported reported s = fold (\<lambda>(e, fp). collectError e fp) reported s"

definition clearCaches :: "Host \<Rightarrow> Host" where
  "clearCaches s =
     s\<lparr>p_checker := None, p_typeCache := [], p_resolver := None, collectedErrors := None,
       modulesOutOfDate := True\<rparr>"

definition invalidateFile :: "string \<Rightarrow> Host \<Rightarrow> Host" where
  "invalidateFile f s =
     s\<lparr>p_staticSymbolResolver :=
         map_option (StaticSymbolResolver_invalidateFile f) (p_staticSymbolResolver s)\<rparr>"

text \<open>The body of the loop of \<^verbatim>\<open>validate\<close> over the source files of the program.\<close>

definition validateFile :: "Env \<Rightarrow> SourceFile \<Rightarrow> Host \<Rightarrow> Host" where
  "validateFile env sourceFile s =
     (let fn = fileName sourceFile;
          version' = getScriptVersion env fn;
          lastVersion = map_of (fileVersions s) fn
      in if Some version' \<noteq> lastVersion
         then invalidateFile fn (s\<lparr>fileVersions := AList.update fn version' (fileVersions s)\<rparr>)
         else s)"

definition validate :: "Env \<Rightarrow> Host \<Rightarrow> Host" where
  "validate env s =
     (let program = getProgram env in
      if p_staticSymbolResolver s \<noteq> None
         \<and> map_option progId (lastProgram s) \<noteq> Some (progId program)
      then
        (let s1 = clearCaches s;
             s2 = fold (validateFile env) (getSourceFiles program) s1;
             seen = map fileName (getSourceFiles program);
             missing = filter (\<lambda>f. f \<notin> set seen) (map fst (fileVersions s2));
             s3 = s2\<lparr>fileVersions := fold AList.delete missing (fileVersions s2)\<rparr>;
             s4 = fold invalidateFile missing s3
         in s4\<lparr>lastProgram := Some program\<rparr>)
      else s)"

subsection \<open>The lazy getters\<close>

definition reflectorHost :: "Env \<Rightarrow> Host \<Rightarrow> ReflectorHost Result" where
  "reflectorHost env s =
     (case p_reflectorHost s of
        Some r \<Rightarrow> (Inr r, s)
      | None \<Rightarrow>
          (let s1 = (if hostContext s = None \<or> hostContext s = Some []
                     then s\<lparr>hostContext :=
                              (case getScriptFileNames env of [] \<Rightarrow> None | f # _ \<Rightarrow> Some f)\<rparr>
                     else s)
           in case hostContext s1 of
                None \<Rightarrow>
                  (Inl (Error ''Internal error: no context could be determined'' None None), s1)
              | Some c \<Rightarrow>
                  (case Program_getSourceFile (getProgram env) c of
                     None \<Rightarrow>
                       (Inl (Error ''Internal error: no context could be determined'' None None),
                        s1)
                   | Some _ \<Rightarrow>
                       (Inr (ReflectorHost c), s1\<lparr>p_reflectorHost := Some (ReflectorHost c)\<rparr>))))"

definition staticSymbolResolver :: "Env \<Rightarrow> Host \<Rightarrow> StaticSymbolResolver Result" where
  "staticSymbolResolver env s =
     (case p_staticSymbolResolver s of
        Some r \<Rightarrow> (Inr r, s)
      | None \<Rightarrow>
          andThen (reflectorHost env s)
            (\<lambda>_ s1. (Inr \<lparr>metadataCache = []\<rparr>,
                      s1\<lparr>p_staticSymbolResolver := Some \<lparr>metadataCache = []\<rparr>\<rparr>)))"

definition reflector :: "Env \<Rightarrow> Host \<Rightarrow> StaticReflector Result" where
  "reflector env s =
     (case p_reflector s of
        Some r \<Rightarrow> (Inr r, s)
      | None \<Rightarrow>
          andThen (staticSymbolResolver env s)
            (\<lambda>_ s1. (Inr StaticReflector, s1\<lparr>p_reflector := Some StaticReflector\<rparr>)))"

definition resolver :: "Env \<Rightarrow> Host \<Rightarrow> CompileMetadataResolver Result" where
  "resolver env s =
     (let s0 = validate env s in
      case p_resolver s0 of
        Some r \<Rightarrow> (Inr r, s0)
      | None \<Rightarrow>
          andThen (reflector env s0)
            (\<lambda>_ s1. (Inr CompileMetadataResolver,
                      s1\<lparr>p_resolver := Some CompileMetadataResolver\<rparr>)))"

definition checker :: "Env \<Rightarrow> Host \<Rightarrow> TypeChecker \<times> Host" where
  "checker env s =
     (case p_checker s of
        Some c \<Rightarrow> (c, s)
      | None \<Rightarrow>
          (getTypeChecker (getProgram env),
           s\<lparr>p_checker := Some (getTypeChecker (getProgram env))\<rparr>))"

text \<open>
  \<^verbatim>\<open>getStaticSymbol\<close> of the reflector. Modelled from the spec: a static symbol is the
  interned pair of a file path and a name.
\<close>

definition getStaticSymbol :: "string \<Rightarrow> string \<Rightarrow> StaticSymbol" where
  "getStaticSymbol fp n = StaticSymbol fp n"

subsection \<open>Analyzed modules\<close>

text \<open>
  A call into the compiler, run on the state: the reported errors are collected, then the
  call returns or throws.
\<close>

definition compilerCall :: "'a CompilerCall \<Rightarrow> Host \<Rightarrow> 'a Result" where
  "compilerCall c s =
     (case c of
        (reported, Returns x) \<Rightarrow> (Inr x, collectReported reported s)
      | (reported, Throws e) \<Rightarrow> (Inl e, collectReported reported s))"

text \<open>
  A pass of the compiler over the source files of the program through the static symbol
  resolver of the host: it returns what the resolver sees of each file.
\<close>

definition resolveProgramFiles :: "Env \<Rightarrow> Host \<Rightarrow> (string \<times> string) list Result" where
  "resolveProgramFiles env s =
     andThen (staticSymbolResolver env s)
       (\<lambda>r s1.
          (let (seen, r') =
                 resolveFiles (getScriptVersion env)
                   (map fileName (getSourceFiles (getProgram env))) r
           in (Inr seen, s1\<lparr>p_staticSymbolResolver := Some r'\<rparr>)))"

definition ensureAnalyzedModules :: "Env \<Rightarrow> Host \<Rightarrow> NgAnalyzedModules Result" where
  "ensureAnalyzedModules env s =
     (case analyzedModules s of
        Some am \<Rightarrow> (Inr am, s)
      | None \<Rightarrow>
          andThen (resolveProgramFiles env s)
            (\<lambda>seen1 s1.
               andThen (compilerCall (extractProgramSymbols env seen1) s1)
                 (\<lambda>programSymbols s2.
                    andThen (resolver env s2)
                      (\<lambda>_ s3.
                         andThen (resolveProgramFiles env s3)
                           (\<lambda>seen2 s4.
                              andThen (compilerCall (analyzeNgModules env programSymbols seen2) s4)
                                (\<lambda>am s5. (Inr am, s5\<lparr>analyzedModules := Some am\<rparr>)))))))"

definition getAnalyzedModules :: "Env \<Rightarrow> Host \<Rightarrow> NgAnalyzedModules Result" where
  "getAnalyzedModules env s = ensureAnalyzedModules env (validate env s)"

definition updateAnalyzedModules :: "Env \<Rightarrow> Host \<Rightarrow> unit Result" where
  "updateAnalyzedModules env s =
     (let s0 = validate env s in
      if modulesOutOfDate s0 then
        andThen
          (ensureAnalyzedModules env
             (s0\<lparr>analyzedModules := None, p_reflector := None, templateReferences := None,
                 fileToComponent := None\<rparr>))
          (\<lambda>_ s1. (Inr (), s1\<lparr>modulesOutOfDate := False\<rparr>))
      else (Inr (), s0))"

subsection \<open>Templates\<close>

text \<open>
  The loop of \<^verbatim>\<open>ensureTemplateMap\<close> over the declared directives of one module; the
  accumulator holds \<^verbatim>\<open>fileToComponent\<close> and \<^verbatim>\<open>templateReference\<close>. Destructuring a
  null result of \<^verbatim>\<open>getNonNormalizedDirectiveMetadata\<close> throws.
\<close>

fun templateMapDirectives ::
  "Env \<Rightarrow> StaticSymbol list \<Rightarrow> (string \<times> StaticSymbol) list \<times> string list \<Rightarrow> Host
     \<Rightarrow> ((string \<times> StaticSymbol) list \<times> string list) Result" where
  "templateMapDirectives env [] acc s = (Inr acc, s)"
| "templateMapDirectives env (directive # rest) acc s =
     andThen (resolver env s)
       (\<lambda>_ s1.
          andThen (compilerCall (getNonNormalizedDirectiveMetadata env directive) s1)
            (\<lambda>md s2.
               case md of
                 None \<Rightarrow>
                   (Inl (Error ''TypeError: cannot read property metadata of null'' None None), s2)
               | Some metadata \<Rightarrow>
                   (case (if isComponent metadata then templateUrl metadata else None) of
                      Some url \<Rightarrow>
                        if url \<noteq> [] then
                          andThen (reflector env s2)
                            (\<lambda>_ s3.
                               (let templateName = resolveTemplateUrl env directive url
                                in templateMapDirectives env rest
                                     (AList.update templateName directive (fst acc),
                                      snd acc @ [templateName]) s3))
                        else templateMapDirectives env rest acc s2
                    | None \<Rightarrow> templateMapDirectives env rest acc s2)))"

fun templateMapModules ::
  "Env \<Rightarrow> NgModuleSummary list \<Rightarrow> (string \<times> StaticSymbol) list \<times> string list \<Rightarrow> Host
     \<Rightarrow> ((string \<times> StaticSymbol) list \<times> string list) Result" where
  "templateMapModules env [] acc s = (Inr acc, s)"
| "templateMapModules env (m # ms) acc s =
     andThen (templateMapDirectives env (declaredDirectives m) acc s)
       (\<lambda>acc' s1. templateMapModules env ms acc' s1)"

definition ensureTemplateMap :: "Env \<Rightarrow> Host \<Rightarrow> unit Result" where
  "ensureTemplateMap env s =
     (if fileToComponent s = None \<or> templateReferences s = None then
        andThen (getAnalyzedModules env s)
          (\<lambda>ngModuleSummary s1.
             andThen (templateMapModules env (ngModules ngModuleSummary) ([], []) s1)
               (\<lambda>acc s2.
                  (Inr (), s2\<lparr>fileToComponent := Some (fst acc),
                              templateReferences := Some (snd acc)\<rparr>)))
      else (Inr (), s))"

definition getTemplateReferences :: "Env \<Rightarrow> Host \<Rightarrow> string list option Result" where
  "getTemplateReferences env s =
     andThen (ensureTemplateMap env s) (\<lambda>_ s1. (Inr (templateReferences s1), s1))"

definition getSourceFromNode ::
  "Env \<Rightarrow> string \<Rightarrow> string \<Rightarrow> Node \<Rightarrow> Node list \<Rightarrow> Host \<Rightarrow> TemplateSource option Result" where
  "getSourceFromNode env fn version' node anc s =
     (if kind node = NoSubstitutionTemplateLiteral \<or> kind node = StringLiteral then
        (case getTemplateClassDeclFromNode anc of
           Inl e \<Rightarrow> (Inl e, s)
         | Inr (None, _) \<Rightarrow> (Inr None, s)
         | Inr (Some declaration, _) \<Rightarrow>
             (case nodeName declaration of
                None \<Rightarrow> (Inr None, s)
              | Some declarationName \<Rightarrow>
                  andThen (reflector env s)
                    (\<lambda>_ s1.
                       case getSourceFile env fn of
                         None \<Rightarrow>
                           (Inl (Error ''TypeError: cannot read property fileName of undefined''
                                   None None), s1)
                       | Some sourceFile \<Rightarrow>
                           (Inr (getSourceFromDeclaration fn version'
                                   (case stringOf node of Some t \<Rightarrow> t | None \<Rightarrow> [])
                                   (shrink (spanOf node) None)
                                   (getStaticSymbol (fileName sourceFile)
                                      (nodeText declarationName))
                                   (Some declaration)), s1))))
      else (Inr None, s))"

text \<open>
  \<^verbatim>\<open>getTemplateClassFromStaticSymbol\<close>: the first class declaration among the children
  of the source file whose name is the name of the symbol. Reading the name of a class
  declaration without one throws.
\<close>

fun findClassDeclaration :: "string \<Rightarrow> Node list \<Rightarrow> Error + Node option" where
  "findClassDeclaration n [] = Inr None"
| "findClassDeclaration n (child # rest) =
     (if kind child = ClassDeclaration then
        (case nodeName child of
           None \<Rightarrow> Inl (Error ''TypeError: cannot read property text of undefined'' None None)
         | Some nm \<Rightarrow> if nodeText nm = n then Inr (Some child) else findClassDeclaration n rest)
      else findClassDeclaration n rest)"

definition getTemplateClassFromStaticSymbol :: "Env \<Rightarrow> StaticSymbol \<Rightarrow> Error + Node option" where
  "getTemplateClassFromStaticSymbol env t =
     (case getSourceFile env (filePath t) of
        Some src \<Rightarrow> findClassDeclaration (staticName t) (children (sourceNode src))
      | None \<Rightarrow> Inr None)"

definition getSourceFromType ::
  "Env \<Rightarrow> string \<Rightarrow> string \<Rightarrow> StaticSymbol \<Rightarrow> Host \<Rightarrow> TemplateSource option Result" where
  "getSourceFromType env fn version' t s =
     (case getTemplateClassFromStaticSymbol env t of
        Inl e \<Rightarrow> (Inl e, s)
      | Inr None \<Rightarrow> (Inr None, s)
      | Inr (Some declaration) \<Rightarrow>
          (case getScriptSnapshot env fn of
             None \<Rightarrow> (Inl (Error ''TypeError: cannot read property getText of undefined'' None None), s)
           | Some txt \<Rightarrow>
               (Inr (getSourceFromDeclaration fn version' txt
                       \<lparr>spanStart = 0, spanEnd = int (length txt)\<rparr> t (Some declaration)), s)))"

definition getTemplateAt :: "Env \<Rightarrow> string \<Rightarrow> nat \<Rightarrow> Host \<Rightarrow> TemplateSource option Result" where
  "getTemplateAt env fn position s =
     (case getSourceFile env fn of
        Some sourceFile \<Rightarrow>
          (let s1 = s\<lparr>hostContext := Some (fileName sourceFile)\<rparr> in
           case findNode sourceFile position of
             Some (node, anc) \<Rightarrow>
               getSourceFromNode env fn (getScriptVersion env (fileName sourceFile)) node anc s1
           | None \<Rightarrow> (Inr None, s1))
      | None \<Rightarrow>
          andThen (ensureTemplateMap env s)
            (\<lambda>_ s1.
               case (case fileToComponent s1 of None \<Rightarrow> None | Some m \<Rightarrow> map_of m fn) of
                 Some componentType \<Rightarrow>
                   getSourceFromType env fn (getScriptVersion env fn) componentType s1
               | None \<Rightarrow> (Inr None, s1)))"

subsection \<open>Declarations\<close>

record DeclarationError =
  errorSpan :: Span
  errorMessage :: string

record Declaration =
  declarationType :: StaticSymbol
  declarationSpan :: Span
  metadata :: "CompileDirectiveMetadata option"
  errors :: "DeclarationError list"

text \<open>
  \<^verbatim>\<open>getCollectedErrors\<close>, with the \<^verbatim>\<open>errors.map\<close> of its body first: it reads the
  message of each collected error and then its span, from the first error on, and throws
  what either of them throws.
\<close>

fun getCollectedErrors_map ::
  "Env \<Rightarrow> Span \<Rightarrow> SourceFile \<Rightarrow> Error list \<Rightarrow> Error + DeclarationError list" where
  "getCollectedErrors_map env defaultSpan sourceFile [] = Inr []"
| "getCollectedErrors_map env defaultSpan sourceFile (Nullish # es) =
     Inl (Error ''TypeError: cannot read property message of undefined'' None None)"
| "getCollectedErrors_map env defaultSpan sourceFile (Error m l c # es) =
     (case spanAt (getPositionOfLineAndCharacter env) sourceFile l c of
        Inl x \<Rightarrow> Inl x
      | Inr sp \<Rightarrow>
          (case getCollectedErrors_map env defaultSpan sourceFile es of
             Inl x \<Rightarrow> Inl x
           | Inr ds \<Rightarrow>
               Inr (\<lparr>errorSpan = (case sp of Some sp' \<Rightarrow> sp' | None \<Rightarrow> defaultSpan),
                     errorMessage = m\<rparr> # ds)))"

definition getCollectedErrors ::
  "Env \<Rightarrow> Span \<Rightarrow> SourceFile \<Rightarrow> Host \<Rightarrow> Error + DeclarationError list" where
  "getCollectedErrors env defaultSpan sourceFile s =
     (case (case collectedErrors s of
              None \<Rightarrow> None
            | Some m \<Rightarrow> map_of m (fileName sourceFile)) of
        None \<Rightarrow> Inr []
      | Some es \<Rightarrow> getCollectedErrors_map env defaultSpan sourceFile es)"

text \<open>
  The body of the \<^verbatim>\<open>try\<close> block of \<^verbatim>\<open>getDeclarationFromNode\<close>. It returns the
  declaration, or nothing when the symbol is no directive, or throws what the resolver or
  \<^verbatim>\<open>getCollectedErrors\<close> throws.
\<close>

definition declarationOfDirective ::
  "Env \<Rightarrow> SourceFile \<Rightarrow> Node \<Rightarrow> StaticSymbol \<Rightarrow> Host \<Rightarrow> Declaration option Result" where
  "declarationOfDirective env sourceFile target staticSymbol s =
     andThen (resolver env s)
       (\<lambda>_ s1.
          andThen (compilerCall (isDirective env staticSymbol) s1)
            (\<lambda>directive s2.
               if directive then
                 andThen (resolver env s2)
                   (\<lambda>_ s3.
                      andThen (compilerCall (getNonNormalizedDirectiveMetadata env staticSymbol) s3)
                        (\<lambda>md s4.
                           case md of
                             None \<Rightarrow>
                               (Inl (Error ''TypeError: cannot read property metadata of null''
                                       None None), s4)
                           | Some metadata' \<Rightarrow>
                               (case getCollectedErrors env (spanOf target) sourceFile s4 of
                                  Inl e \<Rightarrow> (Inl e, s4)
                                | Inr collected \<Rightarrow>
                                    (Inr (Some \<lparr>declarationType = staticSymbol,
                                                declarationSpan = spanOf target,
                                                metadata = Some metadata',
                                                errors = collected\<rparr>), s4))))
               else (Inr None, s2)))"

text \<open>
  The loop of \<^verbatim>\<open>getDeclarationFromNode\<close> over the decorators of a class declaration
  that has a name, with the \<^verbatim>\<open>try\<close> and its \<^verbatim>\<open>catch\<close>. The \<^verbatim>\<open>catch\<close> reads the
  message of the thrown value, which throws for \<^verbatim>\<open>undefined\<close> and \<^verbatim>\<open>null\<close>, and what
  \<^verbatim>\<open>getCollectedErrors\<close> throws there leaves the function. A call expression always has
  an expression; asking the checker for the type of an absent one throws.
\<close>

fun declarationOfDecorators ::
  "Env \<Rightarrow> SourceFile \<Rightarrow> Node \<Rightarrow> Node list \<Rightarrow> Host \<Rightarrow> Declaration option Result" where
  "declarationOfDecorators env sourceFile className [] s = (Inr None, s)"
| "declarationOfDecorators env sourceFile className (decorator # rest) s =
     (case expression decorator of
        None \<Rightarrow> declarationOfDecorators env sourceFile className rest s
      | Some call \<Rightarrow>
          if kind call = CallExpression then
            (case expression call of
               None \<Rightarrow> (Inl (Error ''TypeError: cannot read property of undefined'' None None), s)
             | Some target \<Rightarrow>
                 (let (chk, s1) = checker env s in
                  case getTypeAtLocation chk target of
                    None \<Rightarrow> declarationOfDecorators env sourceFile className rest s1
                  | Some _ \<Rightarrow>
                      andThen (reflector env s1)
                        (\<lambda>_ s2.
                           (let staticSymbol =
                                  getStaticSymbol (fileName sourceFile) (nodeText className)
                            in case declarationOfDirective env sourceFile target staticSymbol s2 of
                                 (Inr (Some d), s3) \<Rightarrow> (Inr (Some d), s3)
                               | (Inr None, s3) \<Rightarrow>
                                   declarationOfDecorators env sourceFile className rest s3
                               | (Inl Nullish, s3) \<Rightarrow>
                                   (Inl (Error ''TypeError: cannot read property message of undefined''
                                           None None), s3)
                               | (Inl (Error m l c), s3) \<Rightarrow>
                                   if m \<noteq> [] then
                                     (let s4 = collectError (Error m l c) (fileName sourceFile) s3
                                      in case getCollectedErrors env (spanOf target) sourceFile s4 of
                                           Inl e \<Rightarrow> (Inl e, s4)
                                         | Inr collected \<Rightarrow>
                                             (Inr (Some \<lparr>declarationType = staticSymbol,
                                                         declarationSpan = spanOf target,
                                                         metadata = None,
                                                         errors = collected\<rparr>), s4))
                                   else declarationOfDecorators env sourceFile className rest s3))))
          else declarationOfDecorators env sourceFile className rest s)"

definition getDeclarationFromNode ::
  "Env \<Rightarrow> SourceFile \<Rightarrow> Node \<Rightarrow> Host \<Rightarrow> Declaration option Result" where
  "getDeclarationFromNode env sourceFile node s =
     (if kind node = ClassDeclaration then
        (case decorators node of
           None \<Rightarrow> (Inr None, s)
         | Some ds \<Rightarrow>
             (case nodeName node of
                None \<Rightarrow> (Inr None, s)
              | Some className \<Rightarrow> declarationOfDecorators env sourceFile className ds s))
      else (Inr None, s))"

text \<open>
  The function \<^verbatim>\<open>visit\<close> of \<^verbatim>\<open>getDeclarations\<close> and \<^verbatim>\<open>ts.forEachChild(_, visit)\<close>;
  \<^verbatim>\<open>visit\<close> returns nothing, so every child is visited. The declarations pushed so far
  are threaded with the state.
\<close>

fun getDeclarations_visit ::
  "Env \<Rightarrow> SourceFile \<Rightarrow> Node \<Rightarrow> Declaration list \<Rightarrow> Host \<Rightarrow> Declaration list Result"
  and getDeclarations_forEachChild ::
  "Env \<Rightarrow> SourceFile \<Rightarrow> Node list \<Rightarrow> Declaration list \<Rightarrow> Host \<Rightarrow> Declaration list Result"
where
  "getDeclarations_visit env sourceFile (Node k p st en tx nm ex ds cs) result s =
     (case getDeclarationFromNode env sourceFile (Node k p st en tx nm ex ds cs) s of
        (Inl e, s1) \<Rightarrow> (Inl e, s1)
      | (Inr (Some declaration), s1) \<Rightarrow> (Inr (result @ [declaration]), s1)
      | (Inr None, s1) \<Rightarrow> getDeclarations_forEachChild env sourceFile cs result s1)"
| "getDeclarations_forEachChild env sourceFile [] result s = (Inr result, s)"
| "getDeclarations_forEachChild env sourceFile (c # cs) result s =
     (case getDeclarations_visit env sourceFile c result s of
        (Inl e, s1) \<Rightarrow> (Inl e, s1)
      | (Inr result1, s1) \<Rightarrow> getDeclarations_forEachChild env sourceFile cs result1 s1)"

definition getDeclarations :: "Env \<Rightarrow> string \<Rightarrow> Host \<Rightarrow> Declaration list Result" where
  "getDeclarations env fn s =
     (case getSourceFile env fn of
        Some sourceFile \<Rightarrow>
          getDeclarations_forEachChild env sourceFile (children (sourceNode sourceFile)) [] s
      | None \<Rightarrow> (Inr [], s))"

section \<open>Predicates used in the statements\<close>

text \<open>
  The invariant of a \<open>MapSymbolTable\<close>: the keys of the map are distinct, every symbol
  in the map is filed under its own name and stands in the array, and the map is no
  longer than the array.
\<close>

definition table_inv :: "('s \<Rightarrow> string) \<Rightarrow> 's MapSymbolTable \<Rightarrow> bool" where
  "table_inv name t \<longleftrightarrow>
     distinct (map fst (tableMap t))
     \<and> (\<forall>k v. map_of (tableMap t) k = Some v \<longrightarrow> name v = k \<and> v \<in> set (tableValues t))
     \<and> length (tableMap t) \<le> length (tableValues t)"

text \<open>The version stamp that the static symbol resolver of the host has cached for a file.\<close>

definition cachedVersion :: "Host \<Rightarrow> string \<Rightarrow> string option" where
  "cachedVersion s f =
     (case p_staticSymbolResolver s of None \<Rightarrow> None | Some r \<Rightarrow> map_of (metadataCache r) f)"

text \<open>
  The condition under which \<^verbatim>\<open>validate\<close> does its work: the static symbol resolver
  exists and the program is not the one seen last.
\<close>

definition validateGuard :: "Env \<Rightarrow> Host \<Rightarrow> bool" where
  "validateGuard env s \<longleftrightarrow>
     p_staticSymbolResolver s \<noteq> None
     \<and> map_option progId (lastProgram s) \<noteq> Some (progId (getProgram env))"


text \<open>
  The cached state of the resolver agrees with the recorded version stamps: a file whose
  state is cached has no recorded stamp, or the stamp of the cached state.
\<close>

definition cacheConsistent :: "Host \<Rightarrow> bool" where
  "cacheConsistent s \<longleftrightarrow>
     (\<forall>f v. cachedVersion s f = Some v \<longrightarrow>
            map_of (fileVersions s) f = None \<or> map_of (fileVersions s) f = Some v)"


text \<open>
  The shape that the template locator looks for, in the words of the specification: the
  ancestors of the literal are, from the nearest, a property assignment named
  \<^verbatim>\<open>template\<close>, an object literal, a call expression, a decorator and a class
  declaration.
\<close>

fun templateChain :: "Node list \<Rightarrow> bool" where
  "templateChain (assignment # objectLiteral # call # decorator # declaration # rest) =
     (kind assignment = PropertyAssignment
      \<and> (case nodeName assignment of Some nm \<Rightarrow> nodeText nm = ''template'' | None \<Rightarrow> False)
      \<and> kind objectLiteral = ObjectLiteralExpression
      \<and> kind call = CallExpression
      \<and> kind decorator = Decorator
      \<and> kind declaration = ClassDeclaration)"
| "templateChain _ = False"

text \<open>
  The compiler gives every property assignment a name; \<open>assignmentHasName\<close> says so
  of the nearest ancestor.
\<close>

definition assignmentHasName :: "Node list \<Rightarrow> bool" where
  "assignmentHasName anc =
     (case anc of
        [] \<Rightarrow> True
      | assignment # _ \<Rightarrow> kind assignment \<noteq> PropertyAssignment \<or> nodeName assignment \<noteq> None)"

text \<open>
  Trees as the parser builds them: the children of a node lie within its range, each has
  a start that is not after its end, and they follow one another without overlap.
\<close>

fun wellNested :: "Node \<Rightarrow> bool"
  and wellNestedList :: "nat \<Rightarrow> nat \<Rightarrow> Node list \<Rightarrow> bool"
where
  "wellNested (Node k p st en tx nm ex ds cs) = wellNestedList st en cs"
| "wellNestedList lo hi [] = True"
| "wellNestedList lo hi (c # cs) =
     (lo \<le> getStart c \<and> getStart c \<le> getEnd c \<and> getEnd c \<le> hi \<and> wellNested c
      \<and> wellNestedList (getEnd c) hi cs)"

text \<open>
  The node reached from a node by a path of child indices, with its ancestors, nearest
  first.
\<close>

fun nodeAt :: "Node \<Rightarrow> nat list \<Rightarrow> Node list \<Rightarrow> (Node \<times> Node list) option" where
  "nodeAt n [] anc = Some (n, anc)"
| "nodeAt n (i # path) anc =
     (if i < length (children n) then nodeAt (children n ! i) path (n # anc) else None)"

text \<open>
  The error that computing the metadata of a symbol ends with, if it fails: what
  \<^verbatim>\<open>isDirective\<close> throws, or for a directive what
  \<^verbatim>\<open>getNonNormalizedDirectiveMetadata\<close> throws, or the type error of destructuring
  its null result.
\<close>

definition metadataFailure :: "Env \<Rightarrow> StaticSymbol \<Rightarrow> Error option" where
  "metadataFailure env staticSymbol =
     (case snd (isDirective env staticSymbol) of
        Throws e \<Rightarrow> Some e
      | Returns False \<Rightarrow> None
      | Returns True \<Rightarrow>
          (case snd (getNonNormalizedDirectiveMetadata env staticSymbol) of
             Throws e \<Rightarrow> Some e
           | Returns None \<Rightarrow>
               Some (Error ''TypeError: cannot read property metadata of null'' None None)
           | Returns (Some _) \<Rightarrow> None))"

text \<open>
  The recorded version stamps are not stale: a file of the current program has no
  recorded stamp, or its current one. The language service answers with a new program
  whenever a version stamp has changed, so between two programs this holds.
\<close>

definition stampsCurrent :: "Env \<Rightarrow> Host \<Rightarrow> bool" where
  "stampsCurrent env s \<longleftrightarrow>
     (\<forall>sf \<in> set (getSourceFiles (getProgram env)).
        map_of (fileVersions s) (fileName sf) = None
        \<or> map_of (fileVersions s) (fileName sf) = Some (getScriptVersion env (fileName sf)))"

text \<open>
  The invariant of the host that the freshness of a new analysis rests on.
\<close>

definition hostConsistent :: "Env \<Rightarrow> Host \<Rightarrow> bool" where
  "hostConsistent env s \<longleftrightarrow> cacheConsistent s \<and> stampsCurrent env s"

text \<open>
  The symbol that \<^verbatim>\<open>getBuiltinType(BuiltinType.Any)\<close> answers with: the memoized one, or
  without a memo entry a new wrapper of the checker's type any in the context of the query.
\<close>

definition builtinAny :: "TypeScriptSymbolQuery \<Rightarrow> Symbol" where
  "builtinAny q =
     (case map_of (typeCache q) Any of
        Some r \<Rightarrow> r
      | None \<Rightarrow>
          TypeWrapper (getTypeAtSynthetic (qChecker q) AsExpression_True_Any
                         (sourceNode (qSource q))) (queryContext q))"


text \<open>
  The errors collected for a file, none when nothing has been collected; and an error
  whose span \<^verbatim>\<open>getCollectedErrors\<close> can compute: an object whose line and column, if
  it has both, \<^verbatim>\<open>ts.getPositionOfLineAndCharacter\<close> finds in the file.
\<close>

definition collectedFor :: "Host \<Rightarrow> string \<Rightarrow> Error list" where
  "collectedFor s fp =
     (case collectedErrors s of
        None \<Rightarrow> []
      | Some m \<Rightarrow> (case map_of m fp of None \<Rightarrow> [] | Some es \<Rightarrow> es))"

definition locatable :: "Env \<Rightarrow> SourceFile \<Rightarrow> Error \<Rightarrow> bool" where
  "locatable env sourceFile e =
     (case e of
        Nullish \<Rightarrow> False
      | Error m l c \<Rightarrow>
          (case spanAt (getPositionOfLineAndCharacter env) sourceFile l c of
             Inl _ \<Rightarrow> False
           | Inr _ \<Rightarrow> True))"

section \<open>Example programs and environments\<close>

text \<open>
  A small world for the concrete instances below. The type checker gives every node the
  type any. The compiler finds in every file one component, named after the version stamp
  of the text it has seen, puts all of them into one module, and reports one error against
  the first file while it analyzes; every component is a directive with an external
  template. Every file has one line.
\<close>

definition anyType :: tsType where
  "anyType = TsType 0 None None []"

definition exampleChecker :: TypeChecker where
  "exampleChecker =
     \<lparr>getNonNullableType = None,
      getTypeAtLocation = (\<lambda>_. Some anyType),
      getTypeAtSynthetic = (\<lambda>_ _. anyType),
      getExportsOfModule = (\<lambda>_. []),
      getDeclaredTypeOfSymbol = (\<lambda>_. None),
      getProperty = (\<lambda>_ _. None),
      getTypeOfSymbolAtLocation = (\<lambda>_ _. None)\<rparr>"

definition emptyFile :: "string \<Rightarrow> SourceFile" where
  "emptyFile fn = \<lparr>fileName = fn, sourceNode = Node SourceFileKind 0 0 0 [] None None None []\<rparr>"

definition analysisError :: Error where
  "analysisError = Error ''Unexpected value'' None None"

definition exampleEnv :: "nat \<Rightarrow> SourceFile list \<Rightarrow> string \<Rightarrow> Env" where
  "exampleEnv pid files stamp =
     \<lparr>getProgram = \<lparr>progId = pid, getSourceFiles = files, getTypeChecker = exampleChecker\<rparr>,
      getScriptVersion = (\<lambda>_. stamp),
      getScriptFileNames = map fileName files,
      getScriptSnapshot = (\<lambda>_. None),
      getPositionOfLineAndCharacter =
        (\<lambda>_ l c. if l = 0 then Returns c
                 else Throws (Error ''Debug Failure. False expression.'' None None)),
      extractProgramSymbols =
        (\<lambda>seen. ([], Returns (map (\<lambda>(f, v). StaticSymbol f (''Component'' @ v)) seen))),
      analyzeNgModules =
        (\<lambda>syms seen. ([(analysisError, ''/app/a.ts'')],
                       Returns \<lparr>ngModules = [\<lparr>declaredDirectives = syms\<rparr>]\<rparr>)),
      isDirective = (\<lambda>_. ([], Returns True)),
      getNonNormalizedDirectiveMetadata =
        (\<lambda>_. ([], Returns (Some \<lparr>isComponent = True, templateUrl = Some ''.html''\<rparr>))),
      resolveTemplateUrl = (\<lambda>t url. filePath t @ url)\<rparr>"

text \<open>
  Two snapshots: program 1 with the files a.ts and b.ts at version 1, and after an edit
  program 2 with a.ts alone, at version 2.
\<close>

definition envA :: Env where
  "envA = exampleEnv 1 [emptyFile ''/app/a.ts'', emptyFile ''/app/b.ts''] ''1''"

definition envB :: Env where
  "envB = exampleEnv 2 [emptyFile ''/app/a.ts''] ''2''"

definition modulesOf :: "StaticSymbol list \<Rightarrow> NgAnalyzedModules" where
  "modulesOf syms = \<lparr>ngModules = [\<lparr>declaredDirectives = syms\<rparr>]\<rparr>"

text \<open>
  The host after a first \<^verbatim>\<open>getAnalyzedModules()\<close> on program 1, and after a first
  \<^verbatim>\<open>getTemplateReferences()\<close> on program 1.
\<close>

definition hostA :: Host where
  "hostA = snd (getAnalyzedModules envA newHost)"

text \<open>The host after a \<^verbatim>\<open>getAnalyzedModules()\<close> on program 2 that follows.\<close>

definition hostB :: Host where
  "hostB = snd (getAnalyzedModules envB hostA)"

definition hostT :: Host where
  "hostT = snd (getTemplateReferences envA newHost)"

text \<open>
  Types of the checker: a nullable type whose non-nullable form is the string type, an
  observable of strings and an array of strings, and a checker that can strip null.
\<close>

definition stringType :: tsType where
  "stringType = TsType 6 (Some (TsSymbol ''String'')) None []"

definition nullableStringType :: tsType where
  "nullableStringType = TsType 5 None None []"

definition observableOfString :: tsType where
  "observableOfString = TsType 7 (Some (TsSymbol ''Observable'')) (Some [stringType]) []"

definition arrayOfString :: tsType where
  "arrayOfString = TsType 8 (Some (TsSymbol ''Array'')) (Some [stringType]) []"

definition strippingChecker :: TypeChecker where
  "strippingChecker =
     exampleChecker\<lparr>getNonNullableType :=
        Some (\<lambda>t. if typeId t = 5 then stringType else t)\<rparr>"

definition exampleContext :: TypeContext where
  "exampleContext =
     \<lparr>ctxNode = sourceNode (emptyFile ''/app/a.ts''), ctxProgram = getProgram envA,
      ctxChecker = strippingChecker\<rparr>"

definition exampleQuery :: TypeScriptSymbolQuery where
  "exampleQuery =
     \<lparr>qProgram = getProgram envA, qChecker = strippingChecker,
      qSource = emptyFile ''/app/a.ts'', typeCache = []\<rparr>"

text \<open>The query after a first \<^verbatim>\<open>getBuiltinType(BuiltinType.Any)\<close>.\<close>

definition memoQuery :: TypeScriptSymbolQuery where
  "memoQuery = exampleQuery\<lparr>typeCache := [(Any, TypeWrapper anyType (queryContext exampleQuery))]\<rparr>"

definition asyncPipe :: PipeInfo where
  "asyncPipe = \<lparr>pipeName = ''async'', pipeSymbol = StaticSymbol ''/lib/common.d.ts'' ''AsyncPipe''\<rparr>"

definition slicePipe :: PipeInfo where
  "slicePipe = \<lparr>pipeName = ''slice'', pipeSymbol = StaticSymbol ''/lib/common.d.ts'' ''SlicePipe''\<rparr>"

text \<open>Two template variables with the same name.\<close>

definition firstItem :: Symbol where
  "firstItem = DeclaredSymbol (SymbolDeclaration ''item'' ''variable'' (TypeWrapper stringType exampleContext))"

definition secondItem :: Symbol where
  "secondItem = DeclaredSymbol (SymbolDeclaration ''item'' ''reference'' (TypeWrapper anyType exampleContext))"

text \<open>
  The tree of a file with one decorated class,
  \<^verbatim>\<open>@Component({<name>: 'hi'}) class C {}\<close>, for a property name of the given text.
\<close>

definition componentLiteral :: "string \<Rightarrow> Node" where
  "componentLiteral pname =
     Node StringLiteral (13 + length pname) (14 + length pname) (18 + length pname) ''hi''
       None None None []"

definition componentAssignment :: "string \<Rightarrow> Node" where
  "componentAssignment pname =
     Node PropertyAssignment 12 12 (18 + length pname) []
       (Some (Node Identifier 12 12 (12 + length pname) pname None None None [])) None None
       [Node Identifier 12 12 (12 + length pname) pname None None None [],
        componentLiteral pname]"

definition componentObject :: "string \<Rightarrow> Node" where
  "componentObject pname =
     Node ObjectLiteralExpression 11 11 (19 + length pname) [] None None None
       [componentAssignment pname]"

definition componentCallee :: Node where
  "componentCallee = Node Identifier 1 1 10 ''Component'' None None None []"

definition componentCall :: "string \<Rightarrow> Node" where
  "componentCall pname =
     Node CallExpression 1 1 (20 + length pname) [] None (Some componentCallee) None
       [componentCallee, componentObject pname]"

definition componentDecorator :: "string \<Rightarrow> Node" where
  "componentDecorator pname =
     Node Decorator 0 0 (20 + length pname) [] None (Some (componentCall pname)) None
       [componentCall pname]"

definition componentClassName :: "string \<Rightarrow> Node" where
  "componentClassName pname =
     Node Identifier (26 + length pname) (27 + length pname) (28 + length pname) ''C''
       None None None []"

definition componentClass :: "string \<Rightarrow> Node" where
  "componentClass pname =
     Node ClassDeclaration 0 0 (31 + length pname) [] (Some (componentClassName pname)) None
       (Some [componentDecorator pname])
       [componentDecorator pname, componentClassName pname]"

definition componentFile :: "string \<Rightarrow> string \<Rightarrow> SourceFile" where
  "componentFile fn pname =
     \<lparr>fileName = fn,
      sourceNode = Node SourceFileKind 0 0 (31 + length pname) [] None None None
                     [componentClass pname]\<rparr>"

definition literalAncestors :: "string \<Rightarrow> string \<Rightarrow> Node list" where
  "literalAncestors fn pname =
     [componentAssignment pname, componentObject pname, componentCall pname,
      componentDecorator pname, componentClass pname, sourceNode (componentFile fn pname)]"

text \<open>
  Program 3: c.ts binds the literal to \<^verbatim>\<open>template\<close>, d.ts binds it to
  \<^verbatim>\<open>templateUrl\<close>.
\<close>

definition envC :: Env where
  "envC = exampleEnv 3 [componentFile ''/app/c.ts'' ''template'',
                        componentFile ''/app/d.ts'' ''templateUrl''] ''1''"

text \<open>
  Two compilers that fail on every symbol when asked whether it is a directive: the first
  throws an error with a message, a line and a column, the second throws a value without
  a message.
\<close>

definition directiveFailure :: Error where
  "directiveFailure = Error ''Unexpected value in decorator'' (Some 0) (Some 1)"

definition envE :: Env where
  "envE = envC\<lparr>isDirective := (\<lambda>_. ([], Throws directiveFailure))\<rparr>"

definition envF :: Env where
  "envF = envC\<lparr>isDirective := (\<lambda>_. ([], Throws (Error [] None None)))\<rparr>"

text \<open>
  Two more: the first throws \<^verbatim>\<open>undefined\<close>, the second an error with a message and
  with a line that the file does not have.
\<close>

definition envN :: Env where
  "envN = envC\<lparr>isDirective := (\<lambda>_. ([], Throws Nullish))\<rparr>"

definition envP :: Env where
  "envP = envC\<lparr>isDirective :=
            (\<lambda>_. ([], Throws (Error ''Unexpected value in decorator'' (Some 5) (Some 0))))\<rparr>"

section \<open>Properties of the symbol abstraction layer\<close>

lemma getBuiltinType_Any_fresh:
  "map_of (typeCache q) Any = None \<Longrightarrow>
   getBuiltinType q Any =
     Inr (TypeWrapper (getTypeAtSynthetic (qChecker q) AsExpression_True_Any
                         (sourceNode (qSource q))) (queryContext q),
          q\<lparr>typeCache := AList.update Any
               (TypeWrapper (getTypeAtSynthetic (qChecker q) AsExpression_True_Any
                         (sourceNode (qSource q))) (queryContext q)) (typeCache q)\<rparr>)"
  by (simp add: getBuiltinType_def getBuiltinTypeFromTs_def queryContext_def Let_def)

lemma getBuiltinType_Any_returns: "\<exists>q'. getBuiltinType q Any = Inr (builtinAny q, q')"
  by (cases "map_of (typeCache q) Any")
     (simp_all add: builtinAny_def getBuiltinType_Any_fresh, simp add: getBuiltinType_def)

text \<open>
  C9. getTypeUnion computes no union: on a non-empty argument list it returns the
  last argument as it is and leaves the query untouched, and on the empty list it returns
  what getBuiltinType(BuiltinType.Any) returns, the built-in type any.
\<close>

theorem getTypeUnion_last_or_any:
  "getTypeUnion q (types @ [t]) = Inr (t, q) \<and> getTypeUnion q [] = getBuiltinType q Any"
  by (simp add: getTypeUnion_def)

lemma PipeSymbol_tsType_returns: "\<exists>pt. PipeSymbol_tsType p c = Inr pt"
  by (simp add: PipeSymbol_tsType_def getBuiltinTypeFromTs_def Let_def split: option.splits)

lemma getTypeParameterOf_single:
  "typeSymbol t = Some s \<Longrightarrow> symbolName s = n \<Longrightarrow> typeArguments t = Some [T] \<Longrightarrow>
   getTypeParameterOf t n = Some T"
  by (simp add: getTypeParameterOf_def)

text \<open>
  C6. For the pipe named async and a single argument that wraps a type whose symbol is
  named Observable, Promise or EventEmitter with the one type argument T, selectSignature
  returns a signature whose result is a wrapper of T (in the context of the argument);
  for the pipe named slice and a single argument that wraps Array with the one type
  argument T, the result is a wrapper of T as well.
\<close>

theorem PipeSymbol_selectSignature_unwraps:
  assumes sym: "typeSymbol t = Some s" and args: "typeArguments t = Some [T]"
  shows "(pipeName p = ''async'' \<and> symbolName s \<in> {''Observable'', ''Promise'', ''EventEmitter''}
          \<longrightarrow> (\<exists>sg. PipeSymbol_selectSignature p c [TypeWrapper t pc] = Inr (Some sg)
                    \<and> Signature_result sg = TypeWrapper T pc))
       \<and> (pipeName p = ''slice'' \<and> symbolName s = ''Array''
          \<longrightarrow> (\<exists>sg. PipeSymbol_selectSignature p c [TypeWrapper t pc] = Inr (Some sg)
                    \<and> Signature_result sg = TypeWrapper T pc))"
proof -
  obtain pt where pt: "PipeSymbol_tsType p c = Inr pt"
    using PipeSymbol_tsType_returns by blast
  have nm: "symbolName s \<noteq> [] \<Longrightarrow> Symbol_name (TypeWrapper t pc) = symbolName s"
    using sym by simp
  have par: "getTypeParameterOf t (symbolName s) = Some T"
    using sym args by (rule getTypeParameterOf_single[OF _ refl])
  show ?thesis
  proof (intro conjI impI)
    assume a: "pipeName p = ''async'' \<and> symbolName s \<in> {''Observable'', ''Promise'', ''EventEmitter''}"
    then have ne: "symbolName s \<noteq> []" by auto
    from a nm[OF ne] par pt
    show "\<exists>sg. PipeSymbol_selectSignature p c [TypeWrapper t pc] = Inr (Some sg)
                    \<and> Signature_result sg = TypeWrapper T pc"
      by (auto simp add: PipeSymbol_selectSignature_def Let_def)
  next
    assume a: "pipeName p = ''slice'' \<and> symbolName s = ''Array''"
    with par pt
    show "\<exists>sg. PipeSymbol_selectSignature p c [TypeWrapper t pc] = Inr (Some sg)
                    \<and> Signature_result sg = TypeWrapper T pc"
      by (auto simp add: PipeSymbol_selectSignature_def Let_def)
  qed
qed

text \<open>
  C8, as amended. getNonNullableType returns a wrapper of the checker's non-nullable
  type, in the context of the input and other than the input, exactly when the input is a
  type wrapper, the checker has the function and the non-nullable type is another object
  than the wrapped type. In every other case (the type is already non-nullable, the
  checker lacks the function, the symbol is no type wrapper) it returns what
  getBuiltinType(BuiltinType.Any) returns, the built-in type any: the memoized symbol, or
  with no memo entry a new wrapper of the checker's type any in the context of the query.
  That result is the input symbol itself (symbols taken by what they hold) exactly
  when the input is that built-in symbol.
\<close>

theorem getNonNullableType_wrapper_or_any:
  "(\<forall>ts ctx f. symbol = TypeWrapper ts ctx \<and> getNonNullableType (qChecker q) = Some f
        \<and> typeId (f ts) \<noteq> typeId ts
      \<longrightarrow> TypeScriptSymbolQuery_getNonNullableType q symbol = Inr (TypeWrapper (f ts) ctx, q)
          \<and> TypeWrapper (f ts) ctx \<noteq> symbol)
   \<and> (\<not> (\<exists>ts ctx f. symbol = TypeWrapper ts ctx \<and> getNonNullableType (qChecker q) = Some f
        \<and> typeId (f ts) \<noteq> typeId ts)
      \<longrightarrow> TypeScriptSymbolQuery_getNonNullableType q symbol = getBuiltinType q Any
          \<and> (\<exists>q'. TypeScriptSymbolQuery_getNonNullableType q symbol = Inr (builtinAny q, q'))
          \<and> ((\<exists>q'. TypeScriptSymbolQuery_getNonNullableType q symbol = Inr (symbol, q'))
               \<longleftrightarrow> symbol = builtinAny q))
   \<and> (map_of (typeCache q) Any = None
      \<longrightarrow> builtinAny q = TypeWrapper (getTypeAtSynthetic (qChecker q) AsExpression_True_Any
                                        (sourceNode (qSource q))) (queryContext q))
   \<and> (\<forall>a. map_of (typeCache q) Any = Some a
      \<longrightarrow> builtinAny q = a \<and> getBuiltinType q Any = Inr (a, q))"
proof -
  have 1: "\<forall>ts ctx f. symbol = TypeWrapper ts ctx \<and> getNonNullableType (qChecker q) = Some f
        \<and> typeId (f ts) \<noteq> typeId ts
      \<longrightarrow> TypeScriptSymbolQuery_getNonNullableType q symbol = Inr (TypeWrapper (f ts) ctx, q)
          \<and> TypeWrapper (f ts) ctx \<noteq> symbol"
    by (auto simp add: TypeScriptSymbolQuery_getNonNullableType_def Let_def)
  have 2: "TypeScriptSymbolQuery_getNonNullableType q symbol = getBuiltinType q Any"
    if "\<not> (\<exists>ts ctx f. symbol = TypeWrapper ts ctx \<and> getNonNullableType (qChecker q) = Some f
        \<and> typeId (f ts) \<noteq> typeId ts)"
    using that
    by (cases symbol)
       (simp_all add: TypeScriptSymbolQuery_getNonNullableType_def Let_def split: option.splits)
  from getBuiltinType_Any_returns[of q] obtain q0
    where b: "getBuiltinType q Any = Inr (builtinAny q, q0)" ..
  have 3: "(\<exists>q'. getBuiltinType q Any = Inr (symbol, q')) \<longleftrightarrow> symbol = builtinAny q"
    using b by auto
  have 4: "map_of (typeCache q) Any = None
      \<longrightarrow> builtinAny q = TypeWrapper (getTypeAtSynthetic (qChecker q) AsExpression_True_Any
                                        (sourceNode (qSource q))) (queryContext q)"
    by (simp add: builtinAny_def)
  have 5: "\<forall>a. map_of (typeCache q) Any = Some a
      \<longrightarrow> builtinAny q = a \<and> getBuiltinType q Any = Inr (a, q)"
    by (simp add: builtinAny_def getBuiltinType_def)
  have 6: "\<not> (\<exists>ts ctx f. symbol = TypeWrapper ts ctx \<and> getNonNullableType (qChecker q) = Some f
        \<and> typeId (f ts) \<noteq> typeId ts)
      \<longrightarrow> TypeScriptSymbolQuery_getNonNullableType q symbol = getBuiltinType q Any
          \<and> (\<exists>q'. TypeScriptSymbolQuery_getNonNullableType q symbol = Inr (builtinAny q, q'))
          \<and> ((\<exists>q'. TypeScriptSymbolQuery_getNonNullableType q symbol = Inr (symbol, q'))
               \<longleftrightarrow> symbol = builtinAny q)"
  proof
    assume n: "\<not> (\<exists>ts ctx f. symbol = TypeWrapper ts ctx
        \<and> getNonNullableType (qChecker q) = Some f \<and> typeId (f ts) \<noteq> typeId ts)"
    from 2[OF n] b 3
    show "TypeScriptSymbolQuery_getNonNullableType q symbol = getBuiltinType q Any
          \<and> (\<exists>q'. TypeScriptSymbolQuery_getNonNullableType q symbol = Inr (builtinAny q, q'))
          \<and> ((\<exists>q'. TypeScriptSymbolQuery_getNonNullableType q symbol = Inr (symbol, q'))
               \<longleftrightarrow> symbol = builtinAny q)" by simp
  qed
  show ?thesis
    apply (rule conjI, rule 1)
    apply (rule conjI, rule 6)
    apply (rule conjI, rule 4)
    apply (rule 5)
    done
qed

lemma indexOf_notin: "x \<notin> set xs \<Longrightarrow> indexOf xs x = - 1"
  by (induction xs) (auto simp: Let_def)

lemma indexOf_in: "x \<in> set xs \<Longrightarrow> 0 \<le> indexOf xs x \<and> nat (indexOf xs x) < length xs \<and> xs ! nat (indexOf xs x) = x"
proof (induction xs)
  case Nil then show ?case by simp
next
  case (Cons y ys)
  show ?case
  proof (cases "y = x")
    case True then show ?thesis by simp
  next
    case False
    with Cons.prems have "x \<in> set ys" by simp
    from Cons.IH[OF this] False show ?thesis
      by (simp add: Let_def nat_add_distrib)
  qed
qed

lemma table_inv_new: "table_inv name MapSymbolTable_new"
  by (simp add: table_inv_def MapSymbolTable_new_def)

lemma add_values_fresh:
  "\<not> MapSymbolTable_has t (name s) \<Longrightarrow>
   tableValues (MapSymbolTable_add name s t) = tableValues t @ [s]"
  by (simp add: MapSymbolTable_add_def)

lemma add_values_dup:
  assumes "table_inv name t" and "MapSymbolTable_get t (name s) = Some previous"
  shows "nat (indexOf (tableValues t) previous) < length (tableValues t)
       \<and> tableValues t ! nat (indexOf (tableValues t) previous) = previous
       \<and> tableValues (MapSymbolTable_add name s t)
           = (tableValues t)[nat (indexOf (tableValues t) previous) := s] @ [s]"
proof -
  from assms have "previous \<in> set (tableValues t)"
    by (simp add: table_inv_def MapSymbolTable_get_def)
  from indexOf_in[OF this] assms(2) show ?thesis
    by (simp add: MapSymbolTable_add_def MapSymbolTable_has_def MapSymbolTable_get_def Let_def)
qed

lemma add_length_values:
  "length (tableValues (MapSymbolTable_add name s t)) = Suc (length (tableValues t))"
  by (simp add: MapSymbolTable_add_def Let_def split: option.splits)

lemma add_map: "tableMap (MapSymbolTable_add name s t) = AList.update (name s) s (tableMap t)"
  by (simp add: MapSymbolTable_add_def Let_def)

lemma length_AList_update:
  "length (AList.update k v al) = (if map_of al k \<noteq> None then length al else Suc (length al))"
  by (induction al) auto

lemma add_size:
  "MapSymbolTable_size (MapSymbolTable_add name s t) =
     (if MapSymbolTable_has t (name s) then MapSymbolTable_size t else Suc (MapSymbolTable_size t))"
  by (simp add: MapSymbolTable_size_def add_map length_AList_update MapSymbolTable_has_def)

lemma add_get: "MapSymbolTable_get (MapSymbolTable_add name s t) (name s) = Some s"
  by (simp add: MapSymbolTable_get_def add_map update_conv')

lemma table_inv_add:
  assumes "table_inv name t"
  shows "table_inv name (MapSymbolTable_add name s t)"
proof -
  have d: "distinct (map fst (tableMap (MapSymbolTable_add name s t)))"
    using assms by (simp add: add_map table_inv_def distinct_update)
  have l: "length (tableMap (MapSymbolTable_add name s t))
             \<le> length (tableValues (MapSymbolTable_add name s t))"
    using assms add_size[of name s t]
    by (simp add: add_length_values table_inv_def MapSymbolTable_size_def split: if_splits)
  have m: "name v = k \<and> v \<in> set (tableValues (MapSymbolTable_add name s t))"
    if look: "map_of (tableMap (MapSymbolTable_add name s t)) k = Some v" for k v
  proof (cases "k = name s")
    case True
    with look have "v = s" by (simp add: add_map update_conv')
    with True show ?thesis by (simp add: MapSymbolTable_add_def Let_def)
  next
    case False
    with look have old: "map_of (tableMap t) k = Some v" by (simp add: add_map update_conv')
    with assms have nv: "name v = k" and vin: "v \<in> set (tableValues t)"
      by (auto simp: table_inv_def)
    show ?thesis
    proof (cases "MapSymbolTable_get t (name s)")
      case None
      then have "\<not> MapSymbolTable_has t (name s)"
        by (simp add: MapSymbolTable_has_def MapSymbolTable_get_def)
      with vin nv show ?thesis by (simp add: add_values_fresh)
    next
      case (Some previous)
      with assms have "name previous = name s"
        by (simp add: table_inv_def MapSymbolTable_get_def)
      with nv False have ne: "v \<noteq> previous" by auto
      from add_values_dup[OF assms Some]
      have i: "nat (indexOf (tableValues t) previous) < length (tableValues t)"
        and at: "tableValues t ! nat (indexOf (tableValues t) previous) = previous"
        and vs: "tableValues (MapSymbolTable_add name s t)
           = (tableValues t)[nat (indexOf (tableValues t) previous) := s] @ [s]"
        by auto
      from vin obtain j where j: "j < length (tableValues t)" "tableValues t ! j = v"
        by (auto simp: in_set_conv_nth)
      with at ne have "j \<noteq> nat (indexOf (tableValues t) previous)" by auto
      with j have "(tableValues t)[nat (indexOf (tableValues t) previous) := s] ! j = v"
        by simp
      with j(1) have "v \<in> set ((tableValues t)[nat (indexOf (tableValues t) previous) := s])"
        by (metis length_list_update nth_mem)
      with nv vs show ?thesis by simp
    qed
  qed
  from d l m show ?thesis unfolding table_inv_def by blast
qed

lemma table_inv_addAll: "table_inv name t \<Longrightarrow> table_inv name (MapSymbolTable_addAll name xs t)"
  by (induction xs arbitrary: t) (simp_all add: table_inv_add)

lemma addAll_length_values:
  "length (tableValues (MapSymbolTable_addAll name xs t)) = length (tableValues t) + length xs"
  by (induction xs arbitrary: t) (simp_all add: add_length_values)

lemma addAll_keys:
  "fst ` set (tableMap (MapSymbolTable_addAll name xs t)) = fst ` set (tableMap t) \<union> name ` set xs"
  by (induction xs arbitrary: t) (auto simp add: add_map AList.dom_update)

lemma addAll_append:
  "MapSymbolTable_addAll name (xs @ ys) t = MapSymbolTable_addAll name ys (MapSymbolTable_addAll name xs t)"
  by (induction xs arbitrary: t) simp_all

lemma fold_addAll:
  "fold (\<lambda>vs result. MapSymbolTable_addAll name vs result) tables t
     = MapSymbolTable_addAll name (concat tables) t"
  by (induction tables arbitrary: t) (simp_all add: addAll_append)

lemma size_card:
  "table_inv name t \<Longrightarrow> MapSymbolTable_size t = card (fst ` set (tableMap t))"
proof -
  assume "table_inv name t"
  then have "distinct (map fst (tableMap t))" by (simp add: table_inv_def)
  from distinct_card[OF this] show ?thesis by (simp add: MapSymbolTable_size_def)
qed

lemma addAll_new_size:
  "MapSymbolTable_size (MapSymbolTable_addAll name xs MapSymbolTable_new) = card (name ` set xs)"
proof -
  have "table_inv name (MapSymbolTable_addAll name xs MapSymbolTable_new)"
    by (rule table_inv_addAll[OF table_inv_new])
  from size_card[OF this] show ?thesis
    by (simp add: addAll_keys) (simp add: MapSymbolTable_new_def)
qed

lemma card_names_lt: "\<not> distinct (map name xs) \<Longrightarrow> card (name ` set xs) < length xs"
proof -
  assume nd: "\<not> distinct (map name xs)"
  have "card (set (map name xs)) \<le> length (map name xs)" by (rule card_length)
  moreover have "card (set (map name xs)) \<noteq> length (map name xs)"
    using nd card_distinct by blast
  ultimately show ?thesis by simp
qed

lemma count_list_update_fresh:
  "s \<notin> set xs \<Longrightarrow> i < length xs \<Longrightarrow> count_list (xs[i := s]) s = 1"
proof (induction xs arbitrary: i)
  case Nil then show ?case by simp
next
  case (Cons x xs)
  then show ?case by (cases i) (auto simp add: count_list_0_iff)
qed

text \<open>
  C10. In a table built from the empty MapSymbolTable by adds, adding a symbol whose
  name is present makes get(name) return the new symbol; the array behind values() is the
  old one with the first occurrence of the previous symbol overwritten by the new one, and
  the new one appended, so the new symbol occurs at least twice (exactly twice when the
  object was not in the array before) and size is less than the length of values(). A
  merge of tables whose values() have a name in common yields a table whose size is less
  than the length of its values().
\<close>

theorem MapSymbolTable_duplicate_add:
  assumes built: "t = MapSymbolTable_addAll name xs MapSymbolTable_new"
    and dup: "MapSymbolTable_has t (name s)"
  shows "MapSymbolTable_get (MapSymbolTable_add name s t) (name s) = Some s
       \<and> (\<exists>previous i. MapSymbolTable_get t (name s) = Some previous
            \<and> i < length (MapSymbolTable_values t) \<and> MapSymbolTable_values t ! i = previous
            \<and> MapSymbolTable_values (MapSymbolTable_add name s t)
                = (MapSymbolTable_values t)[i := s] @ [s])
       \<and> 2 \<le> count_list (MapSymbolTable_values (MapSymbolTable_add name s t)) s
       \<and> (s \<notin> set (MapSymbolTable_values t) \<longrightarrow>
            count_list (MapSymbolTable_values (MapSymbolTable_add name s t)) s = 2)
       \<and> MapSymbolTable_size (MapSymbolTable_add name s t)
           < length (MapSymbolTable_values (MapSymbolTable_add name s t))
       \<and> (\<not> distinct (map name (concat tables)) \<longrightarrow>
            MapSymbolTable_size (mergeSymbolTable name tables)
              < length (MapSymbolTable_values (mergeSymbolTable name tables)))"
proof -
  have inv: "table_inv name t"
    unfolding built by (rule table_inv_addAll[OF table_inv_new])
  from dup obtain previous where prev: "MapSymbolTable_get t (name s) = Some previous"
    by (auto simp: MapSymbolTable_has_def MapSymbolTable_get_def)
  let ?i = "nat (indexOf (tableValues t) previous)"
  from add_values_dup[OF inv prev]
  have i: "?i < length (tableValues t)" and at: "tableValues t ! ?i = previous"
    and vs: "tableValues (MapSymbolTable_add name s t) = (tableValues t)[?i := s] @ [s]"
    by auto
  have c1: "MapSymbolTable_get (MapSymbolTable_add name s t) (name s) = Some s"
    by (rule add_get)
  have c2: "\<exists>previous i. MapSymbolTable_get t (name s) = Some previous
            \<and> i < length (MapSymbolTable_values t) \<and> MapSymbolTable_values t ! i = previous
            \<and> MapSymbolTable_values (MapSymbolTable_add name s t)
                = (MapSymbolTable_values t)[i := s] @ [s]"
    using prev i at vs unfolding MapSymbolTable_values_def by blast
  have "s \<in> set ((tableValues t)[?i := s])"
    using i by (simp add: set_update_memI)
  then have "1 \<le> count_list ((tableValues t)[?i := s]) s"
    by (metis count_list_0_iff less_one not_le)
  then have c3: "2 \<le> count_list (MapSymbolTable_values (MapSymbolTable_add name s t)) s"
    by (simp add: MapSymbolTable_values_def vs)
  have c3': "s \<notin> set (MapSymbolTable_values t) \<longrightarrow>
            count_list (MapSymbolTable_values (MapSymbolTable_add name s t)) s = 2"
    using i by (simp add: MapSymbolTable_values_def vs count_list_update_fresh)
  have "MapSymbolTable_size t \<le> length (tableValues t)"
    using inv by (simp add: table_inv_def MapSymbolTable_size_def)
  then have c4: "MapSymbolTable_size (MapSymbolTable_add name s t)
           < length (MapSymbolTable_values (MapSymbolTable_add name s t))"
    using dup by (simp add: add_size MapSymbolTable_values_def add_length_values)
  have c5: "\<not> distinct (map name (concat tables)) \<longrightarrow>
            MapSymbolTable_size (mergeSymbolTable name tables)
              < length (MapSymbolTable_values (mergeSymbolTable name tables))"
  proof
    assume "\<not> distinct (map name (concat tables))"
    from card_names_lt[OF this]
    have "card (name ` set (concat tables)) < length (concat tables)" .
    moreover have "length (tableValues (MapSymbolTable_addAll name (concat tables) MapSymbolTable_new))
                     = length (concat tables)"
      by (simp only: addAll_length_values) (simp add: MapSymbolTable_new_def)
    ultimately show "MapSymbolTable_size (mergeSymbolTable name tables)
              < length (MapSymbolTable_values (mergeSymbolTable name tables))"
      by (simp only: mergeSymbolTable_def fold_addAll addAll_new_size MapSymbolTable_values_def)
  qed
  from c1 c2 c3 c3' c4 c5 show ?thesis by blast
qed

lemmas symbol_example_defs = stringType_def nullableStringType_def observableOfString_def
  arrayOfString_def strippingChecker_def exampleContext_def exampleQuery_def asyncPipe_def
  slicePipe_def firstItem_def secondItem_def anyType_def exampleChecker_def

theorem getNonNullableType_returns_input_counterexample:
  "getBuiltinType exampleQuery Any
     = Inr (TypeWrapper anyType (queryContext exampleQuery), memoQuery)
   \<and> TypeScriptSymbolQuery_getNonNullableType memoQuery
       (TypeWrapper anyType (queryContext exampleQuery))
     = Inr (TypeWrapper anyType (queryContext exampleQuery), memoQuery)"
proof -
  have 1: "getBuiltinType exampleQuery Any
     = Inr (TypeWrapper anyType (queryContext exampleQuery), memoQuery)"
    by (simp add: getBuiltinType_def getBuiltinTypeFromTs_def memoQuery_def Let_def
        exampleQuery_def strippingChecker_def exampleChecker_def queryContext_def)
  have 2: "TypeScriptSymbolQuery_getNonNullableType memoQuery
       (TypeWrapper anyType (queryContext exampleQuery))
     = Inr (TypeWrapper anyType (queryContext exampleQuery), memoQuery)"
    by (simp add: TypeScriptSymbolQuery_getNonNullableType_def getBuiltinType_def memoQuery_def
        Let_def exampleQuery_def strippingChecker_def anyType_def)
  from 1 2 show ?thesis by simp
qed

theorem getNonNullableType_wrapper_or_any_witness:
  "TypeScriptSymbolQuery_getNonNullableType exampleQuery (TypeWrapper nullableStringType exampleContext)
     = Inr (TypeWrapper stringType exampleContext, exampleQuery)
   \<and> TypeWrapper stringType exampleContext \<noteq> TypeWrapper nullableStringType exampleContext
   \<and> (\<exists>q'. TypeScriptSymbolQuery_getNonNullableType exampleQuery (TypeWrapper stringType exampleContext)
              = Inr (TypeWrapper anyType (queryContext exampleQuery), q'))
   \<and> TypeWrapper anyType (queryContext exampleQuery) \<noteq> TypeWrapper stringType exampleContext
   \<and> (\<exists>q'. TypeScriptSymbolQuery_getNonNullableType exampleQuery firstItem
              = Inr (TypeWrapper anyType (queryContext exampleQuery), q'))"
proof -
  have f: "getNonNullableType (qChecker exampleQuery)
             = Some (\<lambda>t. if typeId t = 5 then stringType else t)"
    by (simp add: exampleQuery_def strippingChecker_def)
  have c: "map_of (typeCache exampleQuery) Any = None" by (simp add: exampleQuery_def)
  have a: "getTypeAtSynthetic (qChecker exampleQuery) AsExpression_True_Any
             (sourceNode (qSource exampleQuery)) = anyType"
    by (simp add: exampleQuery_def strippingChecker_def exampleChecker_def)
  note t1 = getNonNullableType_wrapper_or_any[of "TypeWrapper nullableStringType exampleContext" exampleQuery]
  note t2 = getNonNullableType_wrapper_or_any[of "TypeWrapper stringType exampleContext" exampleQuery]
  note t3 = getNonNullableType_wrapper_or_any[of firstItem exampleQuery]
  from t1 f have 1: "TypeScriptSymbolQuery_getNonNullableType exampleQuery
                        (TypeWrapper nullableStringType exampleContext)
     = Inr (TypeWrapper stringType exampleContext, exampleQuery)
     \<and> TypeWrapper stringType exampleContext \<noteq> TypeWrapper nullableStringType exampleContext"
    by (simp add: nullableStringType_def stringType_def)
  from t2 c have any: "builtinAny exampleQuery = TypeWrapper anyType (queryContext exampleQuery)"
    unfolding a by blast
  have "\<not> (\<exists>ts ctx f. TypeWrapper stringType exampleContext = TypeWrapper ts ctx
             \<and> getNonNullableType (qChecker exampleQuery) = Some f \<and> typeId (f ts) \<noteq> typeId ts)"
    unfolding f by (auto simp add: stringType_def)
  with t2 have 2: "\<exists>q'. TypeScriptSymbolQuery_getNonNullableType exampleQuery
                               (TypeWrapper stringType exampleContext)
              = Inr (TypeWrapper anyType (queryContext exampleQuery), q')"
    unfolding any by blast
  have "\<not> (\<exists>ts ctx f. firstItem = TypeWrapper ts ctx
             \<and> getNonNullableType (qChecker exampleQuery) = Some f \<and> typeId (f ts) \<noteq> typeId ts)"
    by (simp add: firstItem_def)
  with t3 have 3: "\<exists>q'. TypeScriptSymbolQuery_getNonNullableType exampleQuery firstItem
              = Inr (TypeWrapper anyType (queryContext exampleQuery), q')"
    unfolding any by blast
  have 4: "TypeWrapper anyType (queryContext exampleQuery) \<noteq> TypeWrapper stringType exampleContext"
    by (simp add: anyType_def stringType_def)
  from 1 2 3 4 show ?thesis by blast
qed

theorem PipeSymbol_selectSignature_unwraps_witness:
  "(\<exists>sg. PipeSymbol_selectSignature asyncPipe exampleContext
            [TypeWrapper observableOfString exampleContext] = Inr (Some sg)
         \<and> Signature_result sg = TypeWrapper stringType exampleContext)
   \<and> (\<exists>sg. PipeSymbol_selectSignature slicePipe exampleContext
            [TypeWrapper arrayOfString exampleContext] = Inr (Some sg)
         \<and> Signature_result sg = TypeWrapper stringType exampleContext)"
proof -
  have o: "typeSymbol observableOfString = Some (TsSymbol ''Observable'')"
    "typeArguments observableOfString = Some [stringType]"
    "typeSymbol arrayOfString = Some (TsSymbol ''Array'')"
    "typeArguments arrayOfString = Some [stringType]"
    by (simp_all add: observableOfString_def arrayOfString_def)
  from PipeSymbol_selectSignature_unwraps[OF o(1,2), of asyncPipe exampleContext exampleContext]
    PipeSymbol_selectSignature_unwraps[OF o(3,4), of slicePipe exampleContext exampleContext]
  show ?thesis by (simp add: asyncPipe_def slicePipe_def)
qed

theorem MapSymbolTable_duplicate_add_witness:
  "MapSymbolTable_has (createSymbolTable [SymbolDeclaration ''item'' ''variable''
                                            (TypeWrapper stringType exampleContext)])
      (Symbol_name secondItem)
   \<and> Symbol_name secondItem = ''item''
   \<and> MapSymbolTable_values (createSymbolTable [SymbolDeclaration ''item'' ''variable''
                                            (TypeWrapper stringType exampleContext)]) = [firstItem]
   \<and> MapSymbolTable_get (MapSymbolTable_add Symbol_name secondItem
        (createSymbolTable [SymbolDeclaration ''item'' ''variable''
                              (TypeWrapper stringType exampleContext)])) ''item'' = Some secondItem
   \<and> count_list (MapSymbolTable_values (MapSymbolTable_add Symbol_name secondItem
        (createSymbolTable [SymbolDeclaration ''item'' ''variable''
                              (TypeWrapper stringType exampleContext)]))) secondItem = 2
   \<and> MapSymbolTable_size (MapSymbolTable_add Symbol_name secondItem
        (createSymbolTable [SymbolDeclaration ''item'' ''variable''
                              (TypeWrapper stringType exampleContext)]))
       < length (MapSymbolTable_values (MapSymbolTable_add Symbol_name secondItem
        (createSymbolTable [SymbolDeclaration ''item'' ''variable''
                              (TypeWrapper stringType exampleContext)])))
   \<and> \<not> distinct (map Symbol_name (concat [[firstItem], [secondItem]]))
   \<and> MapSymbolTable_size (mergeSymbolTable Symbol_name [[firstItem], [secondItem]])
       < length (MapSymbolTable_values (mergeSymbolTable Symbol_name [[firstItem], [secondItem]]))"
proof -
  let ?t = "createSymbolTable [SymbolDeclaration ''item'' ''variable''
                                 (TypeWrapper stringType exampleContext)]"
  have b: "?t = MapSymbolTable_addAll Symbol_name [firstItem] MapSymbolTable_new"
    by (simp add: createSymbolTable_def firstItem_def)
  have v: "MapSymbolTable_values ?t = [firstItem]"
    by (simp add: b MapSymbolTable_values_def MapSymbolTable_add_def MapSymbolTable_new_def
        MapSymbolTable_has_def Let_def)
  have n: "Symbol_name secondItem = ''item''" by (simp add: secondItem_def)
  have h: "MapSymbolTable_has ?t (Symbol_name secondItem)"
    by (simp add: b n MapSymbolTable_has_def MapSymbolTable_add_def MapSymbolTable_new_def
        Let_def firstItem_def)
  have ne: "secondItem \<notin> set (MapSymbolTable_values ?t)"
    by (simp add: v firstItem_def secondItem_def)
  have d: "\<not> distinct (map Symbol_name (concat [[firstItem], [secondItem]]))"
    by (simp add: firstItem_def secondItem_def)
  note t = MapSymbolTable_duplicate_add[OF b h, of "[[firstItem], [secondItem]]"]
  from t have 1: "MapSymbolTable_get (MapSymbolTable_add Symbol_name secondItem ?t) ''item''
                    = Some secondItem" unfolding n by blast
  from t ne have 2: "count_list (MapSymbolTable_values
                        (MapSymbolTable_add Symbol_name secondItem ?t)) secondItem = 2" by blast
  from t have 3: "MapSymbolTable_size (MapSymbolTable_add Symbol_name secondItem ?t)
       < length (MapSymbolTable_values (MapSymbolTable_add Symbol_name secondItem ?t))" by blast
  from t d have 4: "MapSymbolTable_size (mergeSymbolTable Symbol_name [[firstItem], [secondItem]])
       < length (MapSymbolTable_values (mergeSymbolTable Symbol_name [[firstItem], [secondItem]]))"
    by blast
  from h n v 1 2 3 d 4 show ?thesis by blast
qed

lemma validate_unchanged:
  "p_staticSymbolResolver s = None \<or> map_option progId (lastProgram s) = Some (progId (getProgram env))
   \<Longrightarrow> validate env s = s"
  by (auto simp add: validate_def Let_def)

lemma invalidateFile_fields [simp]:
  "fileVersions (invalidateFile f s) = fileVersions s"
  "collectedErrors (invalidateFile f s) = collectedErrors s"
  "cachedVersion (invalidateFile f s) g = (if g = f then None else cachedVersion s g)"
  by (auto simp add: invalidateFile_def cachedVersion_def StaticSymbolResolver_invalidateFile_def
      AList.delete_conv split: option.splits)

lemma validateFile_versions:
  "map_of (fileVersions (validateFile env sf s)) f =
     (if f = fileName sf then Some (getScriptVersion env f) else map_of (fileVersions s) f)"
  by (auto simp add: validateFile_def Let_def AList.update_conv')

lemma validateFile_cached:
  "cachedVersion (validateFile env sf s) f =
     (if f = fileName sf \<and> map_of (fileVersions s) f \<noteq> Some (getScriptVersion env f) then None
      else cachedVersion s f)"
  by (auto simp add: validateFile_def Let_def) (simp_all add: cachedVersion_def)

lemma validateFile_collected [simp]:
  "collectedErrors (validateFile env sf s) = collectedErrors s"
  by (simp add: validateFile_def Let_def)

lemma fold_validateFile_versions:
  "map_of (fileVersions (fold (validateFile env) sfs s)) f =
     (if f \<in> fileName ` set sfs then Some (getScriptVersion env f) else map_of (fileVersions s) f)"
  by (induction sfs arbitrary: s) (auto simp add: validateFile_versions)

lemma fold_validateFile_collected [simp]:
  "collectedErrors (fold (validateFile env) sfs s) = collectedErrors s"
  by (induction sfs arbitrary: s) simp_all

lemma fold_validateFile_cached_None:
  "cachedVersion s f = None \<Longrightarrow> cachedVersion (fold (validateFile env) sfs s) f = None"
  by (induction sfs arbitrary: s) (simp_all add: validateFile_cached)

lemma fold_validateFile_cached:
  "f \<in> fileName ` set sfs \<Longrightarrow> map_of (fileVersions s) f \<noteq> Some (getScriptVersion env f) \<Longrightarrow>
   cachedVersion (fold (validateFile env) sfs s) f = None"
proof (induction sfs arbitrary: s)
  case Nil then show ?case by simp
next
  case (Cons sf sfs)
  show ?case
  proof (cases "f = fileName sf")
    case True
    with Cons.prems have "cachedVersion (validateFile env sf s) f = None"
      by (simp add: validateFile_cached)
    then show ?thesis by (simp add: fold_validateFile_cached_None)
  next
    case False
    with Cons.prems have "f \<in> fileName ` set sfs" by auto
    moreover from False Cons.prems
    have "map_of (fileVersions (validateFile env sf s)) f \<noteq> Some (getScriptVersion env f)"
      by (simp add: validateFile_versions)
    ultimately show ?thesis using Cons.IH by simp
  qed
qed

lemma fold_delete_map_of:
  "map_of (fold AList.delete ks al) k = (if k \<in> set ks then None else map_of al k)"
  by (induction ks arbitrary: al) (auto simp add: AList.delete_conv)

lemma fold_invalidateFile_fields [simp]:
  "fileVersions (fold invalidateFile ks s) = fileVersions s"
  "collectedErrors (fold invalidateFile ks s) = collectedErrors s"
  by (induction ks arbitrary: s) simp_all

lemma fold_invalidateFile_cached:
  "cachedVersion (fold invalidateFile ks s) f = (if f \<in> set ks then None else cachedVersion s f)"
  by (induction ks arbitrary: s) auto

lemma cachedVersion_update_other [simp]:
  "cachedVersion (s\<lparr>fileVersions := fv\<rparr>) f = cachedVersion s f"
  "cachedVersion (s\<lparr>lastProgram := lp\<rparr>) f = cachedVersion s f"
  "cachedVersion (clearCaches s) f = cachedVersion s f"
  by (simp_all add: cachedVersion_def clearCaches_def)

lemma clearCaches_fields [simp]:
  "fileVersions (clearCaches s) = fileVersions s"
  "collectedErrors (clearCaches s) = None"
  by (simp_all add: clearCaches_def)

lemma validate_changed:
  assumes "validateGuard env s"
  shows "validate env s =
     (let s1 = clearCaches s;
             s2 = fold (validateFile env) (getSourceFiles (getProgram env)) s1;
             seen = map fileName (getSourceFiles (getProgram env));
             missing = filter (\<lambda>f. f \<notin> set seen) (map fst (fileVersions s2));
             s3 = s2\<lparr>fileVersions := fold AList.delete missing (fileVersions s2)\<rparr>;
             s4 = fold invalidateFile missing s3
         in s4\<lparr>lastProgram := Some (getProgram env)\<rparr>)"
  using assms by (simp add: validate_def validateGuard_def Let_def)


lemma validate_changed_lastProgram:
  "validateGuard env s \<Longrightarrow> lastProgram (validate env s) = Some (getProgram env)"
  by (simp add: validate_changed Let_def)

lemma validate_idem: "validate env (validate env s) = validate env s"
proof (cases "validateGuard env s")
  case True
  from validate_changed_lastProgram[OF this] show ?thesis
    by (intro validate_unchanged) simp
next
  case False
  then have "validate env s = s" by (auto simp add: validateGuard_def intro: validate_unchanged)
  then show ?thesis by simp
qed

lemma map_of_in_keys: "map_of al k \<noteq> None \<Longrightarrow> k \<in> set (map fst al)"
  by (induction al) (auto split: if_splits)

lemma validate_changed_versions:
  assumes "validateGuard env s"
  shows "map_of (fileVersions (validate env s)) f =
     (if f \<in> fileName ` set (getSourceFiles (getProgram env)) then Some (getScriptVersion env f)
      else None)"
proof (cases "f \<in> fileName ` set (getSourceFiles (getProgram env))")
  case True
  then show ?thesis
    unfolding validate_changed[OF assms] Let_def
    by (simp add: fold_delete_map_of fold_validateFile_versions)
next
  case False
  let ?s2 = "fold (validateFile env) (getSourceFiles (getProgram env)) (clearCaches s)"
  show ?thesis
  proof (cases "map_of (fileVersions ?s2) f")
    case None
    with False show ?thesis
      unfolding validate_changed[OF assms] Let_def
      by (simp add: fold_delete_map_of)
  next
    case (Some v)
    then have "f \<in> set (map fst (fileVersions ?s2))" by (intro map_of_in_keys) simp
    with False show ?thesis
      unfolding validate_changed[OF assms] Let_def
      by (simp add: fold_delete_map_of)
  qed
qed

lemma validate_changed_collected:
  "validateGuard env s \<Longrightarrow> collectedErrors (validate env s) = None"
  by (simp add: validate_changed Let_def)

lemma validate_changed_cached_changed:
  assumes "validateGuard env s" and "f \<in> fileName ` set (getSourceFiles (getProgram env))"
    and "map_of (fileVersions s) f \<noteq> Some (getScriptVersion env f)"
  shows "cachedVersion (validate env s) f = None"
  unfolding validate_changed[OF assms(1)] Let_def
  using assms(2,3) by (simp add: fold_invalidateFile_cached fold_validateFile_cached)

lemma validate_changed_cached_missing:
  assumes "validateGuard env s" and "f \<notin> fileName ` set (getSourceFiles (getProgram env))"
    and "map_of (fileVersions s) f \<noteq> None"
  shows "cachedVersion (validate env s) f = None"
proof -
  let ?s2 = "fold (validateFile env) (getSourceFiles (getProgram env)) (clearCaches s)"
  from assms(2,3) have "map_of (fileVersions ?s2) f \<noteq> None"
    by (simp add: fold_validateFile_versions)
  then have "f \<in> set (map fst (fileVersions ?s2))" by (rule map_of_in_keys)
  with assms(2) show ?thesis
    unfolding validate_changed[OF assms(1)] Let_def
    by (simp add: fold_invalidateFile_cached)
qed


text \<open>
  C4, as amended. When validate() runs with the static symbol resolver created and a
  program other than the one seen last, then afterwards every file of the current program
  has its current version stamp recorded, and if that differs from the stamp recorded
  before, the file is invalidated in the resolver; every file with a recorded stamp that is
  not in the current program has no stamp any more and is invalidated; and the collected
  errors are cleared. When the static symbol resolver has not been created yet, or the
  program is the one seen last, validate() changes nothing.
\<close>

theorem validate_on_program_change:
  "(validateGuard env s \<longrightarrow>
      (\<forall>sf \<in> set (getSourceFiles (getProgram env)).
          map_of (fileVersions (validate env s)) (fileName sf)
            = Some (getScriptVersion env (fileName sf))
          \<and> (map_of (fileVersions s) (fileName sf) \<noteq> Some (getScriptVersion env (fileName sf))
               \<longrightarrow> cachedVersion (validate env s) (fileName sf) = None))
      \<and> (\<forall>f. map_of (fileVersions s) f \<noteq> None
                \<and> f \<notin> fileName ` set (getSourceFiles (getProgram env))
             \<longrightarrow> map_of (fileVersions (validate env s)) f = None
                 \<and> cachedVersion (validate env s) f = None)
      \<and> collectedErrors (validate env s) = None)
   \<and> (\<not> validateGuard env s \<longrightarrow> validate env s = s)"
proof (intro conjI impI ballI allI)
  fix sf
  assume g: "validateGuard env s" and sf: "sf \<in> set (getSourceFiles (getProgram env))"
  then show "map_of (fileVersions (validate env s)) (fileName sf)
            = Some (getScriptVersion env (fileName sf))"
    by (simp add: validate_changed_versions)
  assume "map_of (fileVersions s) (fileName sf) \<noteq> Some (getScriptVersion env (fileName sf))"
  with g sf show "cachedVersion (validate env s) (fileName sf) = None"
    by (intro validate_changed_cached_changed) auto
next
  fix f
  assume g: "validateGuard env s"
    and f: "map_of (fileVersions s) f \<noteq> None
                \<and> f \<notin> fileName ` set (getSourceFiles (getProgram env))"
  then show "map_of (fileVersions (validate env s)) f = None"
    by (simp add: validate_changed_versions)
  from g f show "cachedVersion (validate env s) f = None"
    by (intro validate_changed_cached_missing) auto
next
  assume "validateGuard env s"
  then show "collectedErrors (validate env s) = None"
    by (rule validate_changed_collected)
next
  assume "\<not> validateGuard env s"
  then show "validate env s = s"
    by (auto simp add: validateGuard_def intro: validate_unchanged)
qed

lemma andThen_Inr [simp]: "andThen (Inr x, s) f = f x s"
  by (simp add: andThen_def)

lemma andThen_Inl [simp]: "andThen (Inl e, s) f = (Inl e, s)"
  by (simp add: andThen_def)

lemma andThen_eq_Inr:
  "andThen m f = (Inr y, s') \<Longrightarrow> \<exists>x s1. m = (Inr x, s1) \<and> f x s1 = (Inr y, s')"
  by (cases m; cases "fst m") (auto simp add: andThen_def)

lemma validateFile_other_fields [simp]:
  "analyzedModules (validateFile env sf s) = analyzedModules s"
  "templateReferences (validateFile env sf s) = templateReferences s"
  "fileToComponent (validateFile env sf s) = fileToComponent s"
  "p_reflector (validateFile env sf s) = p_reflector s"
  "p_reflectorHost (validateFile env sf s) = p_reflectorHost s"
  "hostContext (validateFile env sf s) = hostContext s"
  "p_resolver (validateFile env sf s) = p_resolver s"
  "modulesOutOfDate (validateFile env sf s) = modulesOutOfDate s"
  "(p_staticSymbolResolver (validateFile env sf s) = None) = (p_staticSymbolResolver s = None)"
  by (simp_all add: validateFile_def invalidateFile_def Let_def)

lemma invalidateFile_other_fields [simp]:
  "analyzedModules (invalidateFile f s) = analyzedModules s"
  "templateReferences (invalidateFile f s) = templateReferences s"
  "fileToComponent (invalidateFile f s) = fileToComponent s"
  "p_reflector (invalidateFile f s) = p_reflector s"
  "p_reflectorHost (invalidateFile f s) = p_reflectorHost s"
  "hostContext (invalidateFile f s) = hostContext s"
  "p_resolver (invalidateFile f s) = p_resolver s"
  "modulesOutOfDate (invalidateFile f s) = modulesOutOfDate s"
  "(p_staticSymbolResolver (invalidateFile f s) = None) = (p_staticSymbolResolver s = None)"
  by (simp_all add: invalidateFile_def)

lemma fold_validateFile_other_fields [simp]:
  "analyzedModules (fold (validateFile env) sfs s) = analyzedModules s"
  "templateReferences (fold (validateFile env) sfs s) = templateReferences s"
  "fileToComponent (fold (validateFile env) sfs s) = fileToComponent s"
  "p_reflector (fold (validateFile env) sfs s) = p_reflector s"
  "p_reflectorHost (fold (validateFile env) sfs s) = p_reflectorHost s"
  "hostContext (fold (validateFile env) sfs s) = hostContext s"
  "p_resolver (fold (validateFile env) sfs s) = p_resolver s"
  "modulesOutOfDate (fold (validateFile env) sfs s) = modulesOutOfDate s"
  "(p_staticSymbolResolver (fold (validateFile env) sfs s) = None) = (p_staticSymbolResolver s = None)"
  by (induction sfs arbitrary: s) simp_all

lemma fold_invalidateFile_other_fields [simp]:
  "analyzedModules (fold invalidateFile fs s) = analyzedModules s"
  "templateReferences (fold invalidateFile fs s) = templateReferences s"
  "fileToComponent (fold invalidateFile fs s) = fileToComponent s"
  "p_reflector (fold invalidateFile fs s) = p_reflector s"
  "p_reflectorHost (fold invalidateFile fs s) = p_reflectorHost s"
  "hostContext (fold invalidateFile fs s) = hostContext s"
  "p_resolver (fold invalidateFile fs s) = p_resolver s"
  "modulesOutOfDate (fold invalidateFile fs s) = modulesOutOfDate s"
  "(p_staticSymbolResolver (fold invalidateFile fs s) = None) = (p_staticSymbolResolver s = None)"
  by (induction fs arbitrary: s) simp_all

lemma validate_other_fields [simp]:
  "analyzedModules (validate env s) = analyzedModules s"
  "templateReferences (validate env s) = templateReferences s"
  "fileToComponent (validate env s) = fileToComponent s"
  "p_reflector (validate env s) = p_reflector s"
  "p_reflectorHost (validate env s) = p_reflectorHost s"
  "hostContext (validate env s) = hostContext s"
  "(p_staticSymbolResolver (validate env s) = None) = (p_staticSymbolResolver s = None)"
  by (simp_all add: validate_def Let_def clearCaches_def)


lemma getTemplateReferences_memo:
  "fileToComponent s \<noteq> None \<Longrightarrow> templateReferences s \<noteq> None \<Longrightarrow>
   getTemplateReferences env s = (Inr (templateReferences s), s)"
  by (auto simp add: getTemplateReferences_def ensureTemplateMap_def)





lemma resolveFile_cache:
  "map_of (metadataCache (resolveFile cv g r)) f =
     (if f = g \<and> map_of (metadataCache r) f = None then Some (cv f) else map_of (metadataCache r) f)"
  by (auto simp add: resolveFile_def AList.update_conv' split: option.splits)




lemma collectError_fields [simp]:
  "p_staticSymbolResolver (collectError e fp s) = p_staticSymbolResolver s"
  "lastProgram (collectError e fp s) = lastProgram s"
  "analyzedModules (collectError e fp s) = analyzedModules s"
  "p_reflector (collectError e fp s) = p_reflector s"
  "p_resolver (collectError e fp s) = p_resolver s"
  "p_reflectorHost (collectError e fp s) = p_reflectorHost s"
  "hostContext (collectError e fp s) = hostContext s"
  "p_checker (collectError e fp s) = p_checker s"
  "fileVersions (collectError e fp s) = fileVersions s"
  "modulesOutOfDate (collectError e fp s) = modulesOutOfDate s"
  by (simp_all add: collectError_def Let_def)

lemma collectReported_fields [simp]:
  "p_staticSymbolResolver (collectReported rep s) = p_staticSymbolResolver s"
  "lastProgram (collectReported rep s) = lastProgram s"
  "analyzedModules (collectReported rep s) = analyzedModules s"
  "p_reflector (collectReported rep s) = p_reflector s"
  "p_resolver (collectReported rep s) = p_resolver s"
  "p_reflectorHost (collectReported rep s) = p_reflectorHost s"
  "hostContext (collectReported rep s) = hostContext s"
  "p_checker (collectReported rep s) = p_checker s"
  "fileVersions (collectReported rep s) = fileVersions s"
  "modulesOutOfDate (collectReported rep s) = modulesOutOfDate s"
  unfolding collectReported_def
  by (induction rep arbitrary: s; simp add: split_beta)+

lemma CompileMetadataResolver_eq [simp]: "(x :: CompileMetadataResolver) = y"
  by (cases x; cases y) simp

lemma StaticReflector_eq [simp]: "(x :: StaticReflector) = y"
  by (cases x; cases y) simp

lemma validate_cached_mono:
  "cachedVersion (fold (validateFile env) sfs s) f = None
   \<or> cachedVersion (fold (validateFile env) sfs s) f = cachedVersion s f"
proof (induction sfs arbitrary: s)
  case Nil then show ?case by simp
next
  case (Cons sf sfs)
  from Cons.IH[of "validateFile env sf s"] show ?case
    by (auto simp add: validateFile_cached fold_validateFile_cached_None split: if_splits)
qed







text \<open>
  Nothing on the way from a syntax node to its template source touches the program the
  caches were last validated against.
\<close>

lemma reflectorHost_lastProgram: "lastProgram (snd (reflectorHost env s)) = lastProgram s"
  by (auto simp add: reflectorHost_def Let_def split: option.splits list.splits)

lemma staticSymbolResolver_lastProgram:
  "lastProgram (snd (staticSymbolResolver env s)) = lastProgram s"
proof (cases "reflectorHost env s")
  case (Pair o1 s1)
  with reflectorHost_lastProgram[of env s] have "lastProgram s1 = lastProgram s" by simp
  with Pair show ?thesis
    by (cases o1) (auto simp add: staticSymbolResolver_def split: option.splits)
qed

lemma reflector_lastProgram: "lastProgram (snd (reflector env s)) = lastProgram s"
proof (cases "staticSymbolResolver env s")
  case (Pair o1 s1)
  with staticSymbolResolver_lastProgram[of env s] have "lastProgram s1 = lastProgram s" by simp
  with Pair show ?thesis
    by (cases o1) (auto simp add: reflector_def split: option.splits)
qed

lemma getSourceFromNode_lastProgram:
  "lastProgram (snd (getSourceFromNode env fn v node anc s)) = lastProgram s"
proof (cases "reflector env s")
  case (Pair o1 s1)
  with reflector_lastProgram[of env s] have "lastProgram s1 = lastProgram s" by simp
  with Pair show ?thesis
    by (cases o1)
       (auto simp add: getSourceFromNode_def split: sum.splits option.splits prod.splits)
qed

lemma getTemplateAt_lastProgram:
  "getSourceFile env fn = Some sf \<Longrightarrow>
   lastProgram (snd (getTemplateAt env fn position s)) = lastProgram s"
  by (simp add: getTemplateAt_def Let_def getSourceFromNode_lastProgram split: option.splits prod.splits)

subsection \<open>The resolver's cache stays consistent with the recorded stamps\<close>

lemma cacheConsistent_newHost: "cacheConsistent newHost"
  by (simp add: cacheConsistent_def cachedVersion_def newHost_def)

lemma validate_cached_None_or_same:
  "cachedVersion (validate env s) f = None \<or> cachedVersion (validate env s) f = cachedVersion s f"
proof (cases "validateGuard env s")
  case True
  show ?thesis
    unfolding validate_changed[OF True] Let_def
    using validate_cached_mono[of env "getSourceFiles (getProgram env)" "clearCaches s" f]
    by (auto simp add: fold_invalidateFile_cached)
next
  case False
  then have "validate env s = s" by (auto simp add: validateGuard_def intro: validate_unchanged)
  then show ?thesis by simp
qed

lemma cacheConsistent_validate:
  assumes c: "cacheConsistent s"
  shows "cacheConsistent (validate env s)"
proof (cases "validateGuard env s")
  case False
  then have "validate env s = s" by (auto simp add: validateGuard_def intro: validate_unchanged)
  with c show ?thesis by simp
next
  case g: True
  have "map_of (fileVersions (validate env s)) f = None
        \<or> map_of (fileVersions (validate env s)) f = Some v"
    if cv: "cachedVersion (validate env s) f = Some v" for f v
  proof -
    from validate_cached_None_or_same[of env s f] cv
    have old: "cachedVersion s f = Some v" by auto
    with c have fv: "map_of (fileVersions s) f = None \<or> map_of (fileVersions s) f = Some v"
      unfolding cacheConsistent_def by blast
    show ?thesis
    proof (cases "f \<in> fileName ` set (getSourceFiles (getProgram env))")
      case False
      then show ?thesis by (simp add: validate_changed_versions[OF g])
    next
      case True
      have "map_of (fileVersions s) f = Some (getScriptVersion env f)"
      proof (rule ccontr)
        assume "map_of (fileVersions s) f \<noteq> Some (getScriptVersion env f)"
        from validate_changed_cached_changed[OF g True this] cv show False by simp
      qed
      with fv have "v = getScriptVersion env f" by auto
      with True show ?thesis by (simp add: validate_changed_versions[OF g])
    qed
  qed
  then show ?thesis unfolding cacheConsistent_def by blast
qed

lemma stampsCurrent_validate:
  assumes "stampsCurrent env s \<or> validateGuard env s"
  shows "stampsCurrent env (validate env s)"
proof (cases "validateGuard env s")
  case True
  then show ?thesis by (simp add: stampsCurrent_def validate_changed_versions)
next
  case False
  then have "validate env s = s" by (auto simp add: validateGuard_def intro: validate_unchanged)
  with assms False show ?thesis by simp
qed

lemma hostConsistent_validate: "hostConsistent env s \<Longrightarrow> hostConsistent env (validate env s)"
  by (simp add: hostConsistent_def cacheConsistent_validate stampsCurrent_validate)

lemma hostConsistent_cong:
  "p_staticSymbolResolver s' = p_staticSymbolResolver s \<Longrightarrow> fileVersions s' = fileVersions s
   \<Longrightarrow> hostConsistent env s' = hostConsistent env s"
  by (simp add: hostConsistent_def cacheConsistent_def stampsCurrent_def cachedVersion_def)

lemma hostConsistent_updates [simp]:
  "hostConsistent env (s\<lparr>p_reflector := a\<rparr>) = hostConsistent env s"
  "hostConsistent env (s\<lparr>p_resolver := b\<rparr>) = hostConsistent env s"
  "hostConsistent env (s\<lparr>analyzedModules := c\<rparr>) = hostConsistent env s"
  "hostConsistent env (s\<lparr>modulesOutOfDate := d\<rparr>) = hostConsistent env s"
  "hostConsistent env (s\<lparr>templateReferences := e\<rparr>) = hostConsistent env s"
  "hostConsistent env (s\<lparr>fileToComponent := f\<rparr>) = hostConsistent env s"
  "hostConsistent env (collectReported rep s) = hostConsistent env s"
  by (simp_all add: hostConsistent_def cacheConsistent_def stampsCurrent_def cachedVersion_def)

lemma hostConsistent_empty_resolver:
  "fileVersions s' = fileVersions s \<Longrightarrow> p_staticSymbolResolver s' = Some \<lparr>metadataCache = []\<rparr>
   \<Longrightarrow> hostConsistent env s \<Longrightarrow> hostConsistent env s'"
  by (simp add: hostConsistent_def cacheConsistent_def stampsCurrent_def cachedVersion_def)

lemma andThen_consistent:
  "hostConsistent env (snd m) \<Longrightarrow> (\<And>x s. hostConsistent env s \<Longrightarrow> hostConsistent env (snd (f x s))) \<Longrightarrow> hostConsistent env (snd (andThen m f))"
  by (cases m; cases "fst m") (auto simp add: andThen_def)

lemma reflectorHost_consistent: "hostConsistent env s \<Longrightarrow> hostConsistent env (snd (reflectorHost env s))"
proof -
  have "p_staticSymbolResolver (snd (reflectorHost env s)) = p_staticSymbolResolver s"
    "fileVersions (snd (reflectorHost env s)) = fileVersions s"
    by (auto simp add: reflectorHost_def Let_def split: option.splits list.splits)
  from hostConsistent_cong[OF this] show "hostConsistent env s \<Longrightarrow> hostConsistent env (snd (reflectorHost env s))" by simp
qed

lemma staticSymbolResolver_consistent: "hostConsistent env s \<Longrightarrow> hostConsistent env (snd (staticSymbolResolver env s))"
proof (cases "p_staticSymbolResolver s")
  case (Some r)
  then show "hostConsistent env s \<Longrightarrow> ?thesis" by (simp add: staticSymbolResolver_def)
next
  case None
  assume j: "hostConsistent env s"
  show ?thesis
    unfolding staticSymbolResolver_def None option.case
    by (rule andThen_consistent[OF reflectorHost_consistent[OF j]]) (auto intro: hostConsistent_empty_resolver[rotated 2])
qed

lemma reflector_consistent: "hostConsistent env s \<Longrightarrow> hostConsistent env (snd (reflector env s))"
proof (cases "p_reflector s")
  case (Some r)
  then show "hostConsistent env s \<Longrightarrow> ?thesis" by (simp add: reflector_def)
next
  case None
  assume j: "hostConsistent env s"
  show ?thesis
    unfolding reflector_def None option.case
    by (rule andThen_consistent[OF staticSymbolResolver_consistent[OF j]]) simp
qed

lemma resolver_consistent: "hostConsistent env s \<Longrightarrow> hostConsistent env (snd (resolver env s))"
proof -
  assume j: "hostConsistent env s"
  show ?thesis
  proof (cases "p_resolver (validate env s)")
    case (Some r)
    then show ?thesis using hostConsistent_validate[OF j] by (simp add: resolver_def Let_def)
  next
    case None
    show ?thesis
      unfolding resolver_def Let_def None option.case
      by (rule andThen_consistent[OF reflector_consistent[OF hostConsistent_validate[OF j]]]) simp
  qed
qed

lemma compilerCall_consistent: "hostConsistent env s \<Longrightarrow> hostConsistent env (snd (compilerCall c s))"
  by (cases c; cases "snd c") (simp_all add: compilerCall_def)

lemma resolveFiles_consistent:
  assumes j: "hostConsistent env s" and r: "p_staticSymbolResolver s = Some r"
  shows "hostConsistent env (s\<lparr>p_staticSymbolResolver :=
              Some (snd (resolveFiles (getScriptVersion env)
                           (map fileName (getSourceFiles (getProgram env))) r))\<rparr>)"
proof -
  let ?fs = "map fileName (getSourceFiles (getProgram env))"
  have cache: "map_of (metadataCache (fold (resolveFile (getScriptVersion env)) gs r)) f = Some v
        \<Longrightarrow> set gs \<subseteq> set ?fs
        \<Longrightarrow> map_of (metadataCache r) f = Some v \<or> (f \<in> set ?fs \<and> v = getScriptVersion env f)"
    for gs f v
  proof (induction gs arbitrary: r)
    case Nil then show ?case by simp
  next
    case (Cons g gs)
    from Cons.IH[of "resolveFile (getScriptVersion env) g r"] Cons.prems
    show ?case by (auto simp add: resolveFile_cache split: if_splits)
  qed
  from j r have c: "\<And>f v. map_of (metadataCache r) f = Some v \<Longrightarrow>
        map_of (fileVersions s) f = None \<or> map_of (fileVersions s) f = Some v"
    by (simp add: hostConsistent_def cacheConsistent_def cachedVersion_def)
  from j have st: "\<And>f. f \<in> set ?fs \<Longrightarrow> map_of (fileVersions s) f = None
        \<or> map_of (fileVersions s) f = Some (getScriptVersion env f)"
    by (auto simp add: hostConsistent_def stampsCurrent_def)
  have "map_of (fileVersions s) f = None \<or> map_of (fileVersions s) f = Some v"
    if "map_of (metadataCache (fold (resolveFile (getScriptVersion env)) ?fs r)) f = Some v"
    for f v
    using cache[OF that subset_refl] c[of f v] st[of f] by blast
  with j show ?thesis
    by (simp add: hostConsistent_def cacheConsistent_def cachedVersion_def stampsCurrent_def resolveFiles_def
        Let_def)
qed

lemma resolveProgramFiles_consistent: "hostConsistent env s \<Longrightarrow> hostConsistent env (snd (resolveProgramFiles env s))"
proof -
  assume j: "hostConsistent env s"
  have step: "hostConsistent env (snd (case resolveFiles (getScriptVersion env)
                   (map fileName (getSourceFiles (getProgram env))) r of
              (seen, r') \<Rightarrow> (Inr seen, s1\<lparr>p_staticSymbolResolver := Some r'\<rparr>)))"
    if "hostConsistent env s1" and "p_staticSymbolResolver s1 = Some r" for r s1
    using resolveFiles_consistent[OF that] by (simp add: split_beta)
  show ?thesis
  proof (cases "p_staticSymbolResolver s")
    case (Some r)
    with step[OF j Some] show ?thesis
      by (simp add: resolveProgramFiles_def staticSymbolResolver_def)
  next
    case None
    obtain o1 s1 where rh: "reflectorHost env s = (o1, s1)" by (cases "reflectorHost env s")
    from reflectorHost_consistent[OF j] rh have j1: "hostConsistent env s1" by simp
    show ?thesis
    proof (cases o1)
      case (Inl e)
      with rh None j1 show ?thesis
        by (simp add: resolveProgramFiles_def staticSymbolResolver_def)
    next
      case (Inr h)
      let ?s2 = "s1\<lparr>p_staticSymbolResolver := Some \<lparr>metadataCache = []\<rparr>\<rparr>"
      have "hostConsistent env ?s2" by (rule hostConsistent_empty_resolver[OF _ _ j1]) simp_all
      from step[OF this, of "\<lparr>metadataCache = []\<rparr>"] rh None Inr show ?thesis
        by (simp add: resolveProgramFiles_def staticSymbolResolver_def)
    qed
  qed
qed

lemma ensureAnalyzedModules_consistent: "hostConsistent env s \<Longrightarrow> hostConsistent env (snd (ensureAnalyzedModules env s))"
proof -
  assume j: "hostConsistent env s"
  show ?thesis
  proof (cases "analyzedModules s")
    case (Some am)
    with j show ?thesis by (simp add: ensureAnalyzedModules_def)
  next
    case None
    show ?thesis
      unfolding ensureAnalyzedModules_def None option.case
      by (intro andThen_consistent resolveProgramFiles_consistent compilerCall_consistent resolver_consistent j) simp_all
  qed
qed

lemma getAnalyzedModules_consistent: "hostConsistent env s \<Longrightarrow> hostConsistent env (snd (getAnalyzedModules env s))"
  unfolding getAnalyzedModules_def by (intro ensureAnalyzedModules_consistent hostConsistent_validate)

lemma updateAnalyzedModules_consistent: "hostConsistent env s \<Longrightarrow> hostConsistent env (snd (updateAnalyzedModules env s))"
proof -
  assume j: "hostConsistent env s"
  let ?s0 = "validate env s"
  have "hostConsistent env (?s0\<lparr>analyzedModules := None, p_reflector := None, templateReferences := None,
                 fileToComponent := None\<rparr>)"
    using hostConsistent_validate[OF j] by simp
  from ensureAnalyzedModules_consistent[OF this] hostConsistent_validate[OF j] show ?thesis
    unfolding updateAnalyzedModules_def Let_def
    by (auto intro!: andThen_consistent)
qed

lemma hostConsistent_newHost: "hostConsistent env newHost"
  using cacheConsistent_newHost by (simp add: hostConsistent_def stampsCurrent_def) (simp add: newHost_def)

lemmas example_defs = envA_def envB_def exampleEnv_def emptyFile_def exampleChecker_def anyType_def
  analysisError_def
lemmas host_defs = getAnalyzedModules_def ensureAnalyzedModules_def validate_def resolveProgramFiles_def
  staticSymbolResolver_def reflectorHost_def reflector_def resolver_def compilerCall_def collectReported_def
  resolveFiles_def resolveFile_def clearCaches_def validateFile_def invalidateFile_def collectError_def
  StaticSymbolResolver_invalidateFile_def Program_getSourceFile_def newHost_def andThen_def Let_def


lemma hostA_eq:
  "hostA =
   \<lparr>p_resolver = Some CompileMetadataResolver,
    p_staticSymbolResolver =
      Some \<lparr>metadataCache = [(''/app/a.ts'', ''1''), (''/app/b.ts'', ''1'')]\<rparr>,
    p_reflector = Some StaticReflector,
    p_reflectorHost = Some (ReflectorHost ''/app/a.ts''), p_checker = None,
    p_typeCache = [], hostContext = Some ''/app/a.ts'',
    lastProgram = Some (getProgram envA),
    modulesOutOfDate = True,
    analyzedModules =
      Some (modulesOf [StaticSymbol ''/app/a.ts'' ''Component1'',
                       StaticSymbol ''/app/b.ts'' ''Component1'']),
    fileToComponent = None, templateReferences = None,
    collectedErrors = Some [(''/app/a.ts'', [analysisError])],
    fileVersions = [(''/app/a.ts'', ''1''), (''/app/b.ts'', ''1'')]\<rparr>"
  by (simp add: hostA_def example_defs host_defs modulesOf_def)

lemma getAnalyzedModules_envA_newHost:
  "getAnalyzedModules envA newHost
     = (Inr (modulesOf [StaticSymbol ''/app/a.ts'' ''Component1'',
                        StaticSymbol ''/app/b.ts'' ''Component1'']), hostA)"
  unfolding hostA_eq by (simp add: example_defs host_defs modulesOf_def)

lemma hostT_eq:
  "hostT = hostA\<lparr>fileToComponent :=
               Some [(''/app/a.ts.html'', StaticSymbol ''/app/a.ts'' ''Component1''),
                     (''/app/b.ts.html'', StaticSymbol ''/app/b.ts'' ''Component1'')],
             templateReferences := Some [''/app/a.ts.html'', ''/app/b.ts.html'']\<rparr>"
proof -
  have "templateMapModules envA
          (ngModules (modulesOf [StaticSymbol ''/app/a.ts'' ''Component1'',
                                 StaticSymbol ''/app/b.ts'' ''Component1''])) ([], []) hostA
        = (Inr ([(''/app/a.ts.html'', StaticSymbol ''/app/a.ts'' ''Component1''),
                 (''/app/b.ts.html'', StaticSymbol ''/app/b.ts'' ''Component1'')],
                [''/app/a.ts.html'', ''/app/b.ts.html'']), hostA)"
    unfolding hostA_eq
    by (simp add: modulesOf_def example_defs resolver_def validate_def reflector_def
        compilerCall_def collectReported_def Let_def)
  moreover have "fileToComponent newHost = None" by (simp add: newHost_def)
  ultimately show ?thesis
    by (simp add: hostT_def getTemplateReferences_def ensureTemplateMap_def
        getAnalyzedModules_envA_newHost)
qed


lemma validateGuard_envB_hostA: "validateGuard envB hostA"
  by (simp add: validateGuard_def hostA_eq) (simp add: example_defs)


lemma hostB_eq:
  "hostB =
   \<lparr>p_resolver = None,
    p_staticSymbolResolver = Some \<lparr>metadataCache = []\<rparr>,
    p_reflector = Some StaticReflector,
    p_reflectorHost = Some (ReflectorHost ''/app/a.ts''), p_checker = None,
    p_typeCache = [], hostContext = Some ''/app/a.ts'',
    lastProgram = Some (getProgram envB),
    modulesOutOfDate = True,
    analyzedModules =
      Some (modulesOf [StaticSymbol ''/app/a.ts'' ''Component1'',
                       StaticSymbol ''/app/b.ts'' ''Component1'']),
    fileToComponent = None, templateReferences = None,
    collectedErrors = None,
    fileVersions = [(''/app/a.ts'', ''2'')]\<rparr>"
  unfolding hostB_def hostA_eq
  by (simp add: example_defs host_defs modulesOf_def AList.delete_eq)





theorem validate_without_resolver_counterexample:
  "map_option progId (lastProgram newHost) \<noteq> Some (progId (getProgram envA))
   \<and> emptyFile ''/app/a.ts'' \<in> set (getSourceFiles (getProgram envA))
   \<and> map_of (fileVersions newHost) ''/app/a.ts'' \<noteq> Some (getScriptVersion envA ''/app/a.ts'')
   \<and> validate envA newHost = newHost
   \<and> map_of (fileVersions (validate envA newHost)) ''/app/a.ts''
       \<noteq> Some (getScriptVersion envA ''/app/a.ts'')"
proof -
  have v: "validate envA newHost = newHost"
    by (simp add: validate_def newHost_def)
  show ?thesis
    unfolding v by (simp add: newHost_def example_defs)
qed

theorem validate_on_program_change_witness:
  "validateGuard envB hostA
   \<and> emptyFile ''/app/a.ts'' \<in> set (getSourceFiles (getProgram envB))
   \<and> map_of (fileVersions hostA) ''/app/a.ts'' = Some ''1''
   \<and> cachedVersion hostA ''/app/a.ts'' = Some ''1''
   \<and> map_of (fileVersions (validate envB hostA)) ''/app/a.ts'' = Some ''2''
   \<and> cachedVersion (validate envB hostA) ''/app/a.ts'' = None
   \<and> map_of (fileVersions hostA) ''/app/b.ts'' = Some ''1''
   \<and> map_of (fileVersions (validate envB hostA)) ''/app/b.ts'' = None
   \<and> cachedVersion (validate envB hostA) ''/app/b.ts'' = None
   \<and> collectedErrors hostA = Some [(''/app/a.ts'', [analysisError])]
   \<and> collectedErrors (validate envB hostA) = None
   \<and> \<not> validateGuard envA hostA \<and> validate envA hostA = hostA"
proof -
  note t = validate_on_program_change[of envB hostA]
  note u = validate_on_program_change[of envA hostA]
  have g: "validateGuard envB hostA" by (rule validateGuard_envB_hostA)
  have n: "\<not> validateGuard envA hostA" by (simp add: validateGuard_def hostA_eq)
  have a: "emptyFile ''/app/a.ts'' \<in> set (getSourceFiles (getProgram envB))"
    by (simp add: example_defs)
  have fa: "fileName (emptyFile ''/app/a.ts'') = ''/app/a.ts''" by (simp add: emptyFile_def)
  have va: "getScriptVersion envB ''/app/a.ts'' = ''2''" by (simp add: example_defs)
  have oa: "map_of (fileVersions hostA) ''/app/a.ts'' = Some ''1''"
    and ob: "map_of (fileVersions hostA) ''/app/b.ts'' = Some ''1''"
    and ca: "cachedVersion hostA ''/app/a.ts'' = Some ''1''"
    and ce: "collectedErrors hostA = Some [(''/app/a.ts'', [analysisError])]"
    by (simp_all add: hostA_eq cachedVersion_def)
  have nb: "''/app/b.ts'' \<notin> fileName ` set (getSourceFiles (getProgram envB))"
    by (simp add: example_defs)
  from t g a have "map_of (fileVersions (validate envB hostA))
                      (fileName (emptyFile ''/app/a.ts''))
            = Some (getScriptVersion envB (fileName (emptyFile ''/app/a.ts'')))
          \<and> (map_of (fileVersions hostA) (fileName (emptyFile ''/app/a.ts''))
                 \<noteq> Some (getScriptVersion envB (fileName (emptyFile ''/app/a.ts'')))
               \<longrightarrow> cachedVersion (validate envB hostA) (fileName (emptyFile ''/app/a.ts'')) = None)"
    by blast
  then have 1: "map_of (fileVersions (validate envB hostA)) ''/app/a.ts'' = Some ''2''
       \<and> cachedVersion (validate envB hostA) ''/app/a.ts'' = None"
    unfolding fa va using oa by simp
  from t g ob nb have 2: "map_of (fileVersions (validate envB hostA)) ''/app/b.ts'' = None
       \<and> cachedVersion (validate envB hostA) ''/app/b.ts'' = None"
    by (metis option.distinct(1))
  from t g have 3: "collectedErrors (validate envB hostA) = None" by blast
  from u n have 4: "validate envA hostA = hostA" by blast
  from g a oa ca 1 ob 2 ce 3 n 4 show ?thesis by simp
qed

theorem getTemplateReferences_skips_validate_counterexample:
  "hostT = snd (getTemplateReferences envA newHost)
   \<and> progId (getProgram envB) \<noteq> progId (getProgram envA)
   \<and> validate envB hostT \<noteq> hostT
   \<and> getTemplateReferences envB hostT
       = (Inr (Some [''/app/a.ts.html'', ''/app/b.ts.html'']), hostT)
   \<and> getTemplateReferences envB (validate envB hostT) \<noteq> getTemplateReferences envB hostT"
proof -
  have ft: "fileToComponent hostT \<noteq> None" "templateReferences hostT \<noteq> None"
    "templateReferences hostT = Some [''/app/a.ts.html'', ''/app/b.ts.html'']"
    by (simp_all add: hostT_eq)
  have g: "validateGuard envB hostT"
    by (simp add: validateGuard_def hostT_eq hostA_eq) (simp add: example_defs)
  have lp: "lastProgram hostT = Some (getProgram envA)" by (simp add: hostT_eq hostA_eq)
  have ne: "validate envB hostT \<noteq> hostT"
  proof
    assume "validate envB hostT = hostT"
    then have "lastProgram (validate envB hostT) = lastProgram hostT" by simp
    with validate_changed_lastProgram[OF g] lp show False by (simp add: example_defs)
  qed
  have r: "getTemplateReferences envB hostT
       = (Inr (Some [''/app/a.ts.html'', ''/app/b.ts.html'']), hostT)"
    using getTemplateReferences_memo[OF ft(1,2), of envB] ft(3) by simp
  have "fileToComponent (validate envB hostT) \<noteq> None"
    "templateReferences (validate envB hostT) \<noteq> None"
    using ft by simp_all
  from getTemplateReferences_memo[OF this, of envB]
  have "snd (getTemplateReferences envB (validate envB hostT)) = validate envB hostT" by simp
  with r ne have d: "getTemplateReferences envB (validate envB hostT)
                       \<noteq> getTemplateReferences envB hostT"
    by (metis snd_conv)
  from ne r d show ?thesis by (simp add: hostT_def) (simp add: example_defs)
qed

text \<open>
  C5, as amended. validate() is idempotent, and it is the first step of
  getAnalyzedModules(), of updateAnalyzedModules() and of the getter resolver: running
  validate() before any of them changes neither their result nor the state they leave.
  getTemplateReferences() with its template map built returns the memoized references and
  leaves the state as it is, without running validate(); and getTemplateAt() on a source
  file of the program leaves the program the caches were last validated against as it
  was, so it does not run validate() either.
\<close>

theorem validate_idempotent_and_leading:
  "validate env (validate env s) = validate env s
   \<and> getAnalyzedModules env (validate env s) = getAnalyzedModules env s
   \<and> updateAnalyzedModules env (validate env s) = updateAnalyzedModules env s
   \<and> resolver env (validate env s) = resolver env s
   \<and> (fileToComponent s \<noteq> None \<and> templateReferences s \<noteq> None
        \<longrightarrow> getTemplateReferences env s = (Inr (templateReferences s), s))
   \<and> (getSourceFile env fn \<noteq> None
        \<longrightarrow> lastProgram (snd (getTemplateAt env fn position s)) = lastProgram s)"
  by (auto simp add: getAnalyzedModules_def updateAnalyzedModules_def resolver_def validate_idem
      getTemplateReferences_memo getTemplateAt_lastProgram)

theorem validate_idempotent_and_leading_witness:
  "fileToComponent hostT \<noteq> None \<and> templateReferences hostT \<noteq> None
   \<and> getSourceFile envB ''/app/a.ts'' \<noteq> None
   \<and> getTemplateReferences envB hostT = (Inr (templateReferences hostT), hostT)
   \<and> lastProgram (snd (getTemplateAt envB ''/app/a.ts'' 0 hostT)) = lastProgram hostT
   \<and> validate envB (validate envB hostT) = validate envB hostT"
proof -
  have ft: "fileToComponent hostT \<noteq> None" "templateReferences hostT \<noteq> None"
    by (simp_all add: hostT_eq)
  have sf: "getSourceFile envB ''/app/a.ts'' \<noteq> None"
    by (simp add: getSourceFile_def Program_getSourceFile_def envB_def exampleEnv_def
        emptyFile_def)
  from ft sf validate_idempotent_and_leading[of envB hostT "''/app/a.ts''" 0]
  show ?thesis by blast
qed

section \<open>Properties of the template locator\<close>

lemma getTemplateClassDeclFromNode_chain:
  "templateChain anc \<Longrightarrow>
   getTemplateClassDeclFromNode anc = Inr (Some (anc ! 4), expression (anc ! 2))"
  by (cases anc rule: templateChain.cases)
     (auto simp add: getTemplateClassDeclFromNode_def Let_def split: option.splits)

lemma getTemplateClassDeclFromNode_missing:
  "\<not> templateChain anc \<Longrightarrow> assignmentHasName anc \<Longrightarrow>
   getTemplateClassDeclFromNode anc = Inr missingTemplate"
  by (cases anc rule: templateChain.cases)
     (auto simp add: getTemplateClassDeclFromNode_def assignmentHasName_def Let_def
        split: option.splits list.splits)

lemma getTemplateClassDeclFromNode_Some:
  "getTemplateClassDeclFromNode anc = Inr (Some d, t) \<Longrightarrow> templateChain anc"
  by (cases anc rule: templateChain.cases)
     (auto simp add: getTemplateClassDeclFromNode_def missingTemplate_def Let_def
        split: option.splits list.splits if_splits)


lemma reflector_ready:
  assumes "hostContext s = Some fn" and "fn \<noteq> []"
    and "Program_getSourceFile (getProgram env) fn \<noteq> None"
  shows "\<exists>s'. reflector env s = (Inr StaticReflector, s')"
  using assms
  by (cases "p_reflector s"; cases "p_staticSymbolResolver s"; cases "p_reflectorHost s")
     (auto simp add: reflector_def staticSymbolResolver_def reflectorHost_def Let_def)

lemma find_fileName: "List.find (\<lambda>sf. fileName sf = fn) sfs = Some sf \<Longrightarrow> fileName sf = fn"
  by (induction sfs) (auto split: if_splits)

lemma getSourceFile_fileName: "getSourceFile env fn = Some sf \<Longrightarrow> fileName sf = fn"
  unfolding getSourceFile_def Program_getSourceFile_def by (rule find_fileName)

lemma getSourceFromNode_Some:
  assumes "fst (getSourceFromNode env fn v node anc s) = Inr (Some t)"
  shows "(kind node = StringLiteral \<or> kind node = NoSubstitutionTemplateLiteral)
         \<and> templateChain anc"
proof -
  from assms have k: "kind node = StringLiteral \<or> kind node = NoSubstitutionTemplateLiteral"
    by (auto simp add: getSourceFromNode_def split: if_splits)
  from assms k obtain d tg where "getTemplateClassDeclFromNode anc = Inr (Some d, tg)"
    by (auto simp add: getSourceFromNode_def split: sum.splits option.splits prod.splits)
  from getTemplateClassDeclFromNode_Some[OF this] k show ?thesis by simp
qed

lemma getSourceFromNode_missing:
  assumes "\<not> templateChain anc" and "assignmentHasName anc"
  shows "getSourceFromNode env fn v node anc s = (Inr None, s)"
  using getTemplateClassDeclFromNode_missing[OF assms]
  by (simp add: getSourceFromNode_def missingTemplate_def)

lemma getSourceFromNode_chain:
  assumes k: "kind node = StringLiteral \<or> kind node = NoSubstitutionTemplateLiteral"
    and ch: "templateChain anc" and nm: "nodeName (anc ! 4) = Some className"
    and sf: "getSourceFile env fn = Some sf"
    and r: "reflector env s = (Inr StaticReflector, s')"
  shows "getSourceFromNode env fn v node anc s =
           (Inr (Some \<lparr>version = v, source = nodeText node,
                         span = \<lparr>spanStart = int (getStart node) + 1,
                                  spanEnd = int (getEnd node) - 1\<rparr>,
                         type = StaticSymbol (fileName sf) (nodeText className)\<rparr>), s')"
  using k getTemplateClassDeclFromNode_chain[OF ch] nm sf r
  by (auto simp add: getSourceFromNode_def getSourceFromDeclaration_def stringOf_def shrink_def
      spanOf_def getStaticSymbol_def)

lemma findNode_find_outside:
  "position < getStart n \<or> getEnd n \<le> position \<Longrightarrow> findNode_find position anc n = None"
  by (cases n) auto

lemma wellNestedList_lower:
  "wellNestedList lo hi cs \<Longrightarrow> c \<in> set cs \<Longrightarrow> lo \<le> getStart c \<and> getEnd c \<le> hi \<and> wellNested c"
proof (induction cs arbitrary: lo)
  case Nil then show ?case by simp
next
  case (Cons a cs)
  show ?case
  proof (cases "c = a")
    case True with Cons.prems show ?thesis by simp
  next
    case False
    with Cons.prems have "c \<in> set cs" "wellNestedList (getEnd a) hi cs" by simp_all
    from Cons.IH[OF this(2,1)] Cons.prems(1) show ?thesis by simp
  qed
qed

lemma forEachChild_nth:
  assumes "wellNestedList lo hi cs" and "i < length cs"
    and "getStart (cs ! i) \<le> position"
    and "findNode_find position anc (cs ! i) = Some r"
  shows "findNode_forEachChild position anc cs = Some r"
  using assms
proof (induction cs arbitrary: lo i)
  case Nil then show ?case by simp
next
  case (Cons c cs)
  show ?case
  proof (cases i)
    case 0
    with Cons.prems show ?thesis by simp
  next
    case (Suc j)
    with Cons.prems have j: "j < length cs" and w: "wellNestedList (getEnd c) hi cs"
      and st: "getStart (cs ! j) \<le> position"
      and f: "findNode_find position anc (cs ! j) = Some r" by simp_all
    from wellNestedList_lower[OF w, of "cs ! j"] j have "getEnd c \<le> getStart (cs ! j)" by simp
    with st have "getEnd c \<le> position" by simp
    then have "findNode_find position anc c = None" by (simp add: findNode_find_outside)
    with Cons.IH[OF w j st f] show ?thesis by simp
  qed
qed

lemma nodeAt_range:
  "wellNested n \<Longrightarrow> nodeAt n path anc = Some (m, anc') \<Longrightarrow>
   getStart n \<le> getStart m \<and> getEnd m \<le> getEnd n"
proof (induction path arbitrary: n anc)
  case Nil then show ?case by simp
next
  case (Cons i path)
  obtain k p st en tx nm ex ds cs where n: "n = Node k p st en tx nm ex ds cs" by (cases n)
  from Cons.prems n have i: "i < length cs"
    and at: "nodeAt (cs ! i) path (n # anc) = Some (m, anc')"
    and w: "wellNestedList st en cs" by (simp_all split: if_splits)
  from wellNestedList_lower[OF w, of "cs ! i"] i
  have c: "st \<le> getStart (cs ! i)" "getEnd (cs ! i) \<le> en" "wellNested (cs ! i)" by simp_all
  from Cons.IH[OF c(3) at] c n show ?case by simp
qed

lemma findNode_find_nodeAt:
  assumes "wellNested n" and "nodeAt n path anc = Some (lit, anc')"
    and "children lit = []" and "getStart lit \<le> position" and "position < getEnd lit"
  shows "findNode_find position anc n = Some (lit, anc')"
  using assms
proof (induction path arbitrary: n anc)
  case Nil
  then show ?case by (cases n) auto
next
  case (Cons i path)
  obtain k p st en tx nm ex ds cs where n: "n = Node k p st en tx nm ex ds cs" by (cases n)
  from Cons.prems n have i: "i < length cs"
    and at: "nodeAt (cs ! i) path (n # anc) = Some (lit, anc')"
    and w: "wellNestedList st en cs" by (simp_all split: if_splits)
  from wellNestedList_lower[OF w, of "cs ! i"] i have wc: "wellNested (cs ! i)" by simp
  from Cons.IH[OF wc at Cons.prems(3,4,5)]
  have f: "findNode_find position (n # anc) (cs ! i) = Some (lit, anc')" .
  from nodeAt_range[OF wc at] Cons.prems(4)
  have st: "getStart (cs ! i) \<le> position" by simp
  from forEachChild_nth[OF w i st f]
  have fe: "findNode_forEachChild position (n # anc) cs = Some (lit, anc')" .
  from nodeAt_range[OF Cons.prems(1,2)] Cons.prems(4,5) n
  have "st \<le> position" "position < en" by simp_all
  with fe n show ?case by simp
qed

text \<open>
  C3. In a source file with well-nested node ranges, for a string literal (or
  no-substitution template literal) with the template chain above it and a named class at
  its end, getTemplateAt at any offset from the start of the literal up to its end
  (exclusive) returns a TemplateSource with the text of the literal, the span of the
  literal shrunk by one at each end, and the static symbol of the file name and the name
  of the class.
\<close>

theorem getTemplateAt_inside_literal:
  assumes sf: "getSourceFile env fn = Some sf" and fn: "fn \<noteq> []"
    and wn: "wellNested (sourceNode sf)"
    and at: "nodeAt (sourceNode sf) path [] = Some (lit, anc)"
    and k: "kind lit = StringLiteral \<or> kind lit = NoSubstitutionTemplateLiteral"
    and leaf: "children lit = []"
    and ch: "templateChain anc" and nm: "nodeName (anc ! 4) = Some className"
    and pos: "getStart lit \<le> position" "position < getEnd lit"
  shows "\<exists>s'. getTemplateAt env fn position s =
           (Inr (Some \<lparr>version = getScriptVersion env (fileName sf), source = nodeText lit,
                         span = \<lparr>spanStart = int (getStart lit) + 1,
                                  spanEnd = int (getEnd lit) - 1\<rparr>,
                         type = StaticSymbol (fileName sf) (nodeText className)\<rparr>), s')"
proof -
  from findNode_find_nodeAt[OF wn at leaf pos]
  have f: "findNode sf position = Some (lit, anc)" by (simp add: findNode_def)
  let ?s1 = "s\<lparr>hostContext := Some (fileName sf)\<rparr>"
  from sf have "Program_getSourceFile (getProgram env) fn \<noteq> None"
    by (simp add: getSourceFile_def)
  with getSourceFile_fileName[OF sf] fn
  obtain s' where r: "reflector env ?s1 = (Inr StaticReflector, s')"
    using reflector_ready[of ?s1 fn env] by auto
  from getSourceFromNode_chain[OF k ch nm sf r] sf f show ?thesis
    by (simp add: getTemplateAt_def Let_def)
qed

text \<open>
  C2. On the path through a source file of the program, getTemplateAt returns a
  TemplateSource only if the node found is a string literal or a no-substitution template
  literal whose ancestors are, from the nearest, a property assignment named template, an
  object literal, a call expression, a decorator and a class declaration. If a link of
  that chain is missing or of another kind, the result is absence and no error (the name
  of a property assignment is read, so it has to be there); in particular for a literal
  in a property assignment with any name but template.
\<close>

theorem getTemplateAt_only_on_template_chain:
  "(getSourceFile env fn = Some sf \<and> fst (getTemplateAt env fn position s) = Inr (Some t)
      \<longrightarrow> (\<exists>node anc. findNode sf position = Some (node, anc)
             \<and> (kind node = StringLiteral \<or> kind node = NoSubstitutionTemplateLiteral)
             \<and> templateChain anc))
   \<and> (getSourceFile env fn = Some sf \<and> findNode sf position = Some (node, anc)
        \<and> \<not> templateChain anc \<and> assignmentHasName anc
      \<longrightarrow> getTemplateAt env fn position s = (Inr None, s\<lparr>hostContext := Some (fileName sf)\<rparr>))
   \<and> (getSourceFile env fn = Some sf
        \<and> findNode sf position = Some (node, assignment # rest)
        \<and> kind assignment = PropertyAssignment \<and> nodeName assignment = Some nm
        \<and> nodeText nm \<noteq> ''template''
      \<longrightarrow> getTemplateAt env fn position s = (Inr None, s\<lparr>hostContext := Some (fileName sf)\<rparr>))
   \<and> (\<not> templateChain anc \<and> assignmentHasName anc
      \<longrightarrow> getSourceFromNode env fn v node anc s = (Inr None, s))"
proof -
  have 1: "\<exists>node anc. findNode sf position = Some (node, anc)
             \<and> (kind node = StringLiteral \<or> kind node = NoSubstitutionTemplateLiteral)
             \<and> templateChain anc"
    if sf: "getSourceFile env fn = Some sf"
      and r: "fst (getTemplateAt env fn position s) = Inr (Some t)"
  proof (cases "findNode sf position")
    case None
    with sf r show ?thesis by (simp add: getTemplateAt_def Let_def)
  next
    case (Some na)
    obtain node anc where na: "na = (node, anc)" by (cases na)
    with Some sf r have "fst (getSourceFromNode env fn (getScriptVersion env (fileName sf)) node anc
                           (s\<lparr>hostContext := Some (fileName sf)\<rparr>)) = Inr (Some t)"
      by (simp add: getTemplateAt_def Let_def)
    from getSourceFromNode_Some[OF this] Some na show ?thesis by simp
  qed
  have 2: "getTemplateAt env fn position s = (Inr None, s\<lparr>hostContext := Some (fileName sf)\<rparr>)"
    if "getSourceFile env fn = Some sf" "findNode sf position = Some (node, anc)"
      "\<not> templateChain anc" "assignmentHasName anc" for anc
    using that by (simp add: getTemplateAt_def Let_def getSourceFromNode_missing)
  have 3: "getTemplateAt env fn position s = (Inr None, s\<lparr>hostContext := Some (fileName sf)\<rparr>)"
    if sf: "getSourceFile env fn = Some sf"
      and f: "findNode sf position = Some (node, assignment # rest)"
      and a: "kind assignment = PropertyAssignment" "nodeName assignment = Some nm"
        "nodeText nm \<noteq> ''template''"
  proof -
    have "\<not> templateChain (assignment # rest)"
      using a by (cases "assignment # rest" rule: templateChain.cases) auto
    moreover have "assignmentHasName (assignment # rest)"
      using a by (simp add: assignmentHasName_def)
    ultimately show ?thesis using 2[OF sf f] by blast
  qed
  have 4: "\<not> templateChain anc \<and> assignmentHasName anc
      \<longrightarrow> getSourceFromNode env fn v node anc s = (Inr None, s)"
    by (simp add: getSourceFromNode_missing)
  from 1 2 3 4 show ?thesis by blast
qed

lemmas tree_defs = componentFile_def componentClass_def componentClassName_def
  componentDecorator_def componentCall_def componentCallee_def componentObject_def
  componentAssignment_def componentLiteral_def

lemma getSourceFile_envC:
  "getSourceFile envC ''/app/c.ts'' = Some (componentFile ''/app/c.ts'' ''template'')"
  "getSourceFile envC ''/app/d.ts'' = Some (componentFile ''/app/d.ts'' ''templateUrl'')"
  by (simp_all add: getSourceFile_def Program_getSourceFile_def envC_def exampleEnv_def
      componentFile_def)

lemma nodeAt_literal:
  "nodeAt (sourceNode (componentFile fn pname)) [0, 0, 0, 1, 0, 1] []
     = Some (componentLiteral pname, literalAncestors fn pname)"
  by (simp add: literalAncestors_def componentFile_def componentClass_def componentDecorator_def
      componentCall_def componentObject_def componentAssignment_def)

lemma wellNested_componentFile: "wellNested (sourceNode (componentFile fn pname))"
  by (simp add: tree_defs)

lemma findNode_d:
  "findNode (componentFile ''/app/d.ts'' ''templateUrl'') 26
     = Some (componentLiteral ''templateUrl'', literalAncestors ''/app/d.ts'' ''templateUrl'')"
proof -
  have "findNode_find 26 [] (sourceNode (componentFile ''/app/d.ts'' ''templateUrl''))
     = Some (componentLiteral ''templateUrl'', literalAncestors ''/app/d.ts'' ''templateUrl'')"
    by (rule findNode_find_nodeAt[OF wellNested_componentFile nodeAt_literal])
       (simp_all add: componentLiteral_def)
  then show ?thesis by (simp add: findNode_def)
qed

lemma literal_c_facts:
  "templateChain (literalAncestors ''/app/c.ts'' ''template'')"
  "nodeName (literalAncestors ''/app/c.ts'' ''template'' ! 4)
              = Some (componentClassName ''template'')"
  "kind (componentLiteral ''template'') = StringLiteral
           \<or> kind (componentLiteral ''template'') = NoSubstitutionTemplateLiteral"
  "children (componentLiteral ''template'') = []"
  "getStart (componentLiteral ''template'') \<le> 23"
  "23 < getEnd (componentLiteral ''template'')"
  by (simp_all add: literalAncestors_def tree_defs)

lemma getTemplateAt_c:
  "\<exists>s'. getTemplateAt envC ''/app/c.ts'' 23 newHost =
           (Inr (Some \<lparr>version = ''1'', source = ''hi'',
                         span = \<lparr>spanStart = 23, spanEnd = 25\<rparr>,
                         type = StaticSymbol ''/app/c.ts'' ''C''\<rparr>), s')"
proof -
  let ?sf = "componentFile ''/app/c.ts'' ''template''"
  let ?s1 = "newHost\<lparr>hostContext := Some (fileName ?sf)\<rparr>"
  have "findNode_find 23 [] (sourceNode ?sf)
          = Some (componentLiteral ''template'', literalAncestors ''/app/c.ts'' ''template'')"
    by (rule findNode_find_nodeAt[OF wellNested_componentFile nodeAt_literal literal_c_facts(4,5,6)])
  then have f: "findNode ?sf 23
          = Some (componentLiteral ''template'', literalAncestors ''/app/c.ts'' ''template'')"
    by (simp add: findNode_def)
  have "Program_getSourceFile (getProgram envC) ''/app/c.ts'' \<noteq> None"
    using getSourceFile_envC(1) by (simp add: getSourceFile_def)
  then obtain s' where r: "reflector envC ?s1 = (Inr StaticReflector, s')"
    using reflector_ready[of ?s1 "''/app/c.ts''" envC] by (auto simp add: componentFile_def)
  from getSourceFromNode_chain[OF literal_c_facts(3,1,2) getSourceFile_envC(1) r,
      of "getScriptVersion envC (fileName ?sf)"] f
  show ?thesis
    by (simp add: getTemplateAt_def getSourceFile_envC Let_def)
       (simp add: componentLiteral_def componentClassName_def componentFile_def envC_def
          exampleEnv_def)
qed

theorem getTemplateAt_inside_literal_witness:
  "getSourceFile envC ''/app/c.ts'' = Some (componentFile ''/app/c.ts'' ''template'')
   \<and> getStart (componentLiteral ''template'') = 22 \<and> getEnd (componentLiteral ''template'') = 26
   \<and> (\<exists>s'. getTemplateAt envC ''/app/c.ts'' 23 newHost =
           (Inr (Some \<lparr>version = ''1'', source = ''hi'',
                         span = \<lparr>spanStart = 23, spanEnd = 25\<rparr>,
                         type = StaticSymbol ''/app/c.ts'' ''C''\<rparr>), s'))"
proof -
  have fn: "''/app/c.ts'' \<noteq> []" by simp
  from getTemplateAt_inside_literal[OF getSourceFile_envC(1) fn wellNested_componentFile
      nodeAt_literal literal_c_facts(3,4,1,2,5,6), of newHost]
  show ?thesis
    by (simp add: getSourceFile_envC)
       (simp add: componentLiteral_def componentClassName_def componentFile_def envC_def exampleEnv_def)
qed

theorem getTemplateAt_only_on_template_chain_witness:
  "fst (getTemplateAt envC ''/app/c.ts'' 23 newHost)
     = Inr (Some \<lparr>version = ''1'', source = ''hi'', span = \<lparr>spanStart = 23, spanEnd = 25\<rparr>,
                  type = StaticSymbol ''/app/c.ts'' ''C''\<rparr>)
   \<and> (\<exists>node anc. findNode (componentFile ''/app/c.ts'' ''template'') 23 = Some (node, anc)
          \<and> (kind node = StringLiteral \<or> kind node = NoSubstitutionTemplateLiteral)
          \<and> templateChain anc)
   \<and> findNode (componentFile ''/app/d.ts'' ''templateUrl'') 26
       = Some (componentLiteral ''templateUrl'', literalAncestors ''/app/d.ts'' ''templateUrl'')
   \<and> \<not> templateChain (literalAncestors ''/app/d.ts'' ''templateUrl'')
   \<and> assignmentHasName (literalAncestors ''/app/d.ts'' ''templateUrl'')
   \<and> getTemplateAt envC ''/app/d.ts'' 26 newHost
       = (Inr None, newHost\<lparr>hostContext := Some ''/app/d.ts''\<rparr>)"
proof -
  let ?t = "\<lparr>version = ''1'', source = ''hi'', span = \<lparr>spanStart = 23, spanEnd = 25\<rparr>,
             type = StaticSymbol ''/app/c.ts'' ''C''\<rparr>"
  have r: "fst (getTemplateAt envC ''/app/c.ts'' 23 newHost) = Inr (Some ?t)"
    using getTemplateAt_c by auto
  have nc: "\<not> templateChain (literalAncestors ''/app/d.ts'' ''templateUrl'')"
    by (simp add: literalAncestors_def componentAssignment_def)
  have hn: "assignmentHasName (literalAncestors ''/app/d.ts'' ''templateUrl'')"
    by (simp add: assignmentHasName_def literalAncestors_def componentAssignment_def)
  have fd: "fileName (componentFile ''/app/d.ts'' ''templateUrl'') = ''/app/d.ts''"
    by (simp add: componentFile_def)
  note t1 = getTemplateAt_only_on_template_chain[of envC "''/app/c.ts''"
      "componentFile ''/app/c.ts'' ''template''" 23 newHost ?t]
  note t2 = getTemplateAt_only_on_template_chain[of envC "''/app/d.ts''"
      "componentFile ''/app/d.ts'' ''templateUrl''" 26 newHost _
      "componentLiteral ''templateUrl''" "literalAncestors ''/app/d.ts'' ''templateUrl''"]
  from t1 getSourceFile_envC(1) r
  have 1: "\<exists>node anc. findNode (componentFile ''/app/c.ts'' ''template'') 23 = Some (node, anc)
          \<and> (kind node = StringLiteral \<or> kind node = NoSubstitutionTemplateLiteral)
          \<and> templateChain anc" by blast
  from t2 getSourceFile_envC(2) findNode_d nc hn
  have 2: "getTemplateAt envC ''/app/d.ts'' 26 newHost
       = (Inr None, newHost\<lparr>hostContext := Some ''/app/d.ts''\<rparr>)"
    unfolding fd by blast
  from r 1 findNode_d nc hn 2 show ?thesis by blast
qed

section \<open>Properties of the declarations\<close>

lemma reflector_result:
  "reflector env s = (Inr r, s1) \<Longrightarrow> p_reflector s1 = Some StaticReflector"
  by (cases "p_reflector s")
     (auto simp add: reflector_def dest!: andThen_eq_Inr)

lemma resolver_with_reflector:
  assumes "p_reflector s = Some r"
  shows "\<exists>s'. resolver env s = (Inr CompileMetadataResolver, s') \<and> p_reflector s' = Some r"
  using assms
  by (cases "p_resolver (validate env s)") (auto simp add: resolver_def reflector_def Let_def)

lemma declarationOfDirective_fails:
  assumes r: "p_reflector s = Some StaticReflector"
    and f: "metadataFailure env ssym = Some e"
  shows "fst (declarationOfDirective env sf target ssym s) = Inl e"
proof -
  from resolver_with_reflector[OF r] obtain s1
    where r1: "resolver env s = (Inr CompileMetadataResolver, s1)"
      and p1: "p_reflector s1 = Some StaticReflector" by blast
  obtain rep out where d: "isDirective env ssym = (rep, out)" by (cases "isDirective env ssym")
  show ?thesis
  proof (cases out)
    case (Throws e')
    with f d have "e' = e" by (simp add: metadataFailure_def)
    with Throws d r1 show ?thesis
      by (simp add: declarationOfDirective_def compilerCall_def)
  next
    case (Returns b)
    with f d have b: "b" by (cases b) (simp_all add: metadataFailure_def)
    have "p_reflector (collectReported rep s1) = Some StaticReflector" using p1 by simp
    from resolver_with_reflector[OF this] obtain s3
      where r3: "resolver env (collectReported rep s1) = (Inr CompileMetadataResolver, s3)"
      by blast
    obtain rep2 out2 where m: "getNonNormalizedDirectiveMetadata env ssym = (rep2, out2)"
      by (cases "getNonNormalizedDirectiveMetadata env ssym")
    show ?thesis
    proof (cases out2)
      case (Throws e')
      with f d Returns b m have "e' = e" by (simp add: metadataFailure_def)
      with Throws d Returns b m r1 r3 show ?thesis
        by (simp add: declarationOfDirective_def compilerCall_def)
    next
      case r2: (Returns md)
      with f d Returns b m have "md = None"
        and "e = Error ''TypeError: cannot read property metadata of null'' None None"
        by (cases md; simp add: metadataFailure_def)+
      with r2 d Returns b m r1 r3 show ?thesis
        by (simp add: declarationOfDirective_def compilerCall_def)
    qed
  qed
qed

lemma collectedFor_collectError:
  "collectedFor (collectError e fp s) fp = collectedFor s fp @ [e]"
  by (simp add: collectedFor_def collectError_def Let_def AList.update_conv'
      split: option.splits)

lemma getCollectedErrors_collectedFor:
  "getCollectedErrors env sp sf s = getCollectedErrors_map env sp sf (collectedFor s (fileName sf))"
  by (simp add: getCollectedErrors_def collectedFor_def split: option.splits)

lemma getCollectedErrors_map_append:
  assumes "getCollectedErrors_map env d sf es = Inr ds"
    and "spanAt (getPositionOfLineAndCharacter env) sf l c = Inr sp"
  shows "getCollectedErrors_map env d sf (es @ [Error m l c])
           = Inr (ds @ [\<lparr>errorSpan = (case sp of Some sp' \<Rightarrow> sp' | None \<Rightarrow> d),
                         errorMessage = m\<rparr>])"
  using assms
proof (induction es arbitrary: ds)
  case Nil then show ?case by simp
next
  case (Cons e es)
  show ?case
  proof (cases e)
    case Nullish
    with Cons.prems show ?thesis by simp
  next
    case (Error m' l' c')
    with Cons.prems(1) obtain sp' ds'
      where a: "spanAt (getPositionOfLineAndCharacter env) sf l' c' = Inr sp'"
        and b: "getCollectedErrors_map env d sf es = Inr ds'"
        and c: "ds = \<lparr>errorSpan = (case sp' of Some x \<Rightarrow> x | None \<Rightarrow> d),
                       errorMessage = m'\<rparr> # ds'"
      by (auto split: sum.splits)
    from Cons.IH[OF b Cons.prems(2)] a c Error show ?thesis by simp
  qed
qed

lemma getCollectedErrors_map_locatable:
  "\<forall>e \<in> set es. locatable env sf e \<Longrightarrow>
   \<exists>ds. getCollectedErrors_map env d sf es = Inr ds \<and> length ds = length es"
proof (induction es)
  case Nil then show ?case by simp
next
  case (Cons e es)
  then obtain ds where ds: "getCollectedErrors_map env d sf es = Inr ds" "length ds = length es"
    by auto
  from Cons.prems have "locatable env sf e" by simp
  with ds show ?case
    by (cases e) (auto simp add: locatable_def split: sum.splits)
qed

lemma forEachChild_append:
  "getDeclarations_forEachChild env sf pre result s0 = (Inr result1, s) \<Longrightarrow>
   getDeclarations_forEachChild env sf (pre @ cs) result s0
     = getDeclarations_forEachChild env sf cs result1 s"
proof (induction pre arbitrary: result s0)
  case Nil then show ?case by simp
next
  case (Cons c pre)
  obtain o1 s1 where v: "getDeclarations_visit env sf c result s0 = (o1, s1)"
    by (cases "getDeclarations_visit env sf c result s0")
  show ?case
  proof (cases o1)
    case (Inl e)
    with v Cons.prems show ?thesis by simp
  next
    case (Inr r1)
    with v Cons.prems have "getDeclarations_forEachChild env sf pre r1 s1 = (Inr result1, s)"
      by simp
    from Cons.IH[OF this] v Inr show ?thesis by simp
  qed
qed

lemma visit_declaration:
  "getDeclarationFromNode env sf c s = (Inr (Some d), s') \<Longrightarrow>
   getDeclarations_visit env sf c result s = (Inr (result @ [d]), s')"
  by (cases c) simp

text \<open>
  C7, as amended. When the metadata resolution of a decorated class throws an error
  object, getDeclarationFromNode catches it. If the error carries a message and the span
  of every error collected for the file can be computed, the error is appended to the
  collected errors of the file and a Declaration for the class is returned, without
  metadata, with the span of the decorator's call target and with the collected errors of
  the file, the new one last, at the span of its line and column or else at the span of
  the declaration; getDeclarations goes on with the siblings of the class. If the error
  carries no message, it is not recorded and no Declaration is made for that decorator:
  the loop goes on with the next decorator, from the state in which the error was thrown.
\<close>

theorem getDeclarations_records_failure:
  assumes cls: "kind cls = ClassDeclaration" "decorators cls = Some (decorator # rest)"
      "nodeName cls = Some className"
    and dec: "expression decorator = Some call" "kind call = CallExpression"
      "expression call = Some target"
    and typed: "getTypeAtLocation (fst (checker env s)) target \<noteq> None"
    and refl: "fst (reflector env (snd (checker env s))) = Inr StaticReflector"
    and fails: "metadataFailure env (StaticSymbol (fileName sf) (nodeText className))
                  = Some (Error m l c)"
    and sF: "sF = snd (declarationOfDirective env sf target
                         (StaticSymbol (fileName sf) (nodeText className))
                         (snd (reflector env (snd (checker env s)))))"
    and s': "s' = collectError (Error m l c) (fileName sf) sF"
  shows "(m \<noteq> [] \<and> (\<forall>e \<in> set (collectedFor s' (fileName sf)). locatable env sf e) \<longrightarrow>
          (\<exists>ds d.
             d = \<lparr>declarationType = StaticSymbol (fileName sf) (nodeText className),
                   declarationSpan = spanOf target, metadata = None,
                   errors = ds @ [\<lparr>errorSpan =
                                     (case spanAt (getPositionOfLineAndCharacter env) sf l c of
                                        Inr (Some sp) \<Rightarrow> sp | _ \<Rightarrow> spanOf target),
                                   errorMessage = m\<rparr>]\<rparr>
             \<and> getDeclarationFromNode env sf cls s = (Inr (Some d), s')
             \<and> collectedFor s' (fileName sf) = collectedFor sF (fileName sf) @ [Error m l c]
             \<and> getCollectedErrors env (spanOf target) sf sF = Inr ds
             \<and> getCollectedErrors env (spanOf target) sf s' = Inr (errors d)
             \<and> (\<forall>pre post result result1 s0.
                   getDeclarations_forEachChild env sf pre result s0 = (Inr result1, s)
                   \<longrightarrow> getDeclarations_forEachChild env sf (pre @ cls # post) result s0
                         = getDeclarations_forEachChild env sf post (result1 @ [d]) s')))
     \<and> (m = [] \<longrightarrow>
          getDeclarationFromNode env sf cls s
            = declarationOfDecorators env sf className rest sF
          \<and> (rest = [] \<longrightarrow> getDeclarationFromNode env sf cls s = (Inr None, sF)))"
proof -
  let ?ssym = "StaticSymbol (fileName sf) (nodeText className)"
  let ?e = "Error m l c"
  obtain chk s1 where c: "checker env s = (chk, s1)" by (cases "checker env s")
  from refl c obtain s2 where r: "reflector env s1 = (Inr StaticReflector, s2)"
    by (cases "reflector env s1") auto
  from reflector_result[OF r] have p2: "p_reflector s2 = Some StaticReflector" .
  from declarationOfDirective_fails[OF p2 fails, of sf target] sF c r
  have f: "declarationOfDirective env sf target ?ssym s2 = (Inl ?e, sF)"
    by (cases "declarationOfDirective env sf target ?ssym s2") simp
  from typed c obtain ty where ty: "getTypeAtLocation chk target = Some ty" by auto
  have loop: "getDeclarationFromNode env sf cls s =
          (if m \<noteq> [] then
             (case getCollectedErrors env (spanOf target) sf s' of
                Inl x \<Rightarrow> (Inl x, s')
              | Inr collected \<Rightarrow>
                  (Inr (Some \<lparr>declarationType = ?ssym, declarationSpan = spanOf target,
                              metadata = None, errors = collected\<rparr>), s'))
           else declarationOfDecorators env sf className rest sF)"
    unfolding s' using cls dec c ty r f
    by (simp add: getDeclarationFromNode_def getStaticSymbol_def Let_def)
  have cf: "collectedFor s' (fileName sf) = collectedFor sF (fileName sf) @ [?e]"
    unfolding s' by (rule collectedFor_collectError)
  have rec: "\<exists>ds d.
             d = \<lparr>declarationType = ?ssym,
                   declarationSpan = spanOf target, metadata = None,
                   errors = ds @ [\<lparr>errorSpan =
                                     (case spanAt (getPositionOfLineAndCharacter env) sf l c of
                                        Inr (Some sp) \<Rightarrow> sp | _ \<Rightarrow> spanOf target),
                                   errorMessage = m\<rparr>]\<rparr>
             \<and> getDeclarationFromNode env sf cls s = (Inr (Some d), s')
             \<and> collectedFor s' (fileName sf) = collectedFor sF (fileName sf) @ [?e]
             \<and> getCollectedErrors env (spanOf target) sf sF = Inr ds
             \<and> getCollectedErrors env (spanOf target) sf s' = Inr (errors d)
             \<and> (\<forall>pre post result result1 s0.
                   getDeclarations_forEachChild env sf pre result s0 = (Inr result1, s)
                   \<longrightarrow> getDeclarations_forEachChild env sf (pre @ cls # post) result s0
                         = getDeclarations_forEachChild env sf post (result1 @ [d]) s')"
    if ne: "m \<noteq> []" and loc: "\<forall>e \<in> set (collectedFor s' (fileName sf)). locatable env sf e"
  proof -
    from loc cf have l1: "\<forall>e \<in> set (collectedFor sF (fileName sf)). locatable env sf e"
      and l2: "locatable env sf ?e" by simp_all
    from getCollectedErrors_map_locatable[OF l1, of "spanOf target"] obtain ds
      where ds: "getCollectedErrors_map env (spanOf target) sf (collectedFor sF (fileName sf))
                  = Inr ds" by blast
    from l2 obtain sp where sp: "spanAt (getPositionOfLineAndCharacter env) sf l c = Inr sp"
      by (auto simp add: locatable_def split: sum.splits)
    let ?last = "\<lparr>errorSpan = (case spanAt (getPositionOfLineAndCharacter env) sf l c of
                                 Inr (Some sp) \<Rightarrow> sp | _ \<Rightarrow> spanOf target),
                    errorMessage = m\<rparr>"
    let ?d = "\<lparr>declarationType = ?ssym, declarationSpan = spanOf target, metadata = None,
                errors = ds @ [?last]\<rparr>"
    have same: "\<lparr>errorSpan = (case sp of Some sp' \<Rightarrow> sp' | None \<Rightarrow> spanOf target),
                  errorMessage = m\<rparr> = ?last"
      using sp by (cases sp) simp_all
    from getCollectedErrors_map_append[OF ds sp, of m] same
    have g': "getCollectedErrors env (spanOf target) sf s' = Inr (ds @ [?last])"
      by (simp add: getCollectedErrors_collectedFor cf)
    have gF: "getCollectedErrors env (spanOf target) sf sF = Inr ds"
      by (simp add: getCollectedErrors_collectedFor ds)
    have a: "getDeclarationFromNode env sf cls s = (Inr (Some ?d), s')"
      using loop ne g' by simp
    have sib: "getDeclarations_forEachChild env sf (pre @ cls # post) result s0
                      = getDeclarations_forEachChild env sf post (result1 @ [?d]) s'"
      if "getDeclarations_forEachChild env sf pre result s0 = (Inr result1, s)"
      for pre post result result1 s0
      using forEachChild_append[OF that, of "cls # post"] visit_declaration[OF a]
      by simp
    from a cf gF g' sib show ?thesis by auto
  qed
  have z: "getDeclarationFromNode env sf cls s
            = declarationOfDecorators env sf className rest sF
          \<and> (rest = [] \<longrightarrow> getDeclarationFromNode env sf cls s = (Inr None, sF))"
    if "m = []"
    using loop that by auto
  from rec z show ?thesis by blast
qed

lemmas declaration_defs = componentFile_def componentClass_def
  componentDecorator_def componentCall_def componentCallee_def componentObject_def
  componentAssignment_def componentLiteral_def componentClassName_def
  getDeclarationFromNode_def declarationOfDirective_def checker_def newHost_def
  envC_def exampleEnv_def exampleChecker_def reflector_def staticSymbolResolver_def
  reflectorHost_def Program_getSourceFile_def andThen_def resolver_def validate_def
  clearCaches_def validateFile_def invalidateFile_def StaticSymbolResolver_invalidateFile_def
  compilerCall_def collectReported_def getStaticSymbol_def Let_def

lemma getSourceFile_envE:
  "getSourceFile envE ''/app/c.ts'' = Some (componentFile ''/app/c.ts'' ''template'')"
  "getSourceFile envF ''/app/c.ts'' = Some (componentFile ''/app/c.ts'' ''template'')"
  "getSourceFile envN ''/app/c.ts'' = Some (componentFile ''/app/c.ts'' ''template'')"
  "getSourceFile envP ''/app/c.ts'' = Some (componentFile ''/app/c.ts'' ''template'')"
  by (simp_all add: getSourceFile_def Program_getSourceFile_def envE_def envF_def envN_def
      envP_def envC_def exampleEnv_def componentFile_def)

lemma componentClass_facts:
  "kind (componentClass pname) = ClassDeclaration"
  "decorators (componentClass pname) = Some [componentDecorator pname]"
  "nodeName (componentClass pname) = Some (componentClassName pname)"
  "expression (componentDecorator pname) = Some (componentCall pname)"
  "kind (componentCall pname) = CallExpression"
  "expression (componentCall pname) = Some componentCallee"
  "nodeText (componentClassName pname) = ''C''"
  "children (sourceNode (componentFile fn pname)) = [componentClass pname]"
  "fileName (componentFile fn pname) = fn"
  by (simp_all add: componentClass_def componentDecorator_def componentCall_def
      componentClassName_def componentFile_def)

lemma newHost_envE:
  "getTypeAtLocation (fst (checker envE newHost)) componentCallee \<noteq> None"
  "fst (reflector envE (snd (checker envE newHost))) = Inr StaticReflector"
  by (simp_all add: checker_def newHost_def envE_def envC_def exampleEnv_def exampleChecker_def
      reflector_def staticSymbolResolver_def reflectorHost_def Program_getSourceFile_def
      componentFile_def andThen_def)

lemma collected_envE:
  "collectedErrors (snd (declarationOfDirective envE (componentFile ''/app/c.ts'' ''template'')
       componentCallee (StaticSymbol ''/app/c.ts'' ''C'')
       (snd (reflector envE (snd (checker envE newHost)))))) = None"
  by (simp add: declaration_defs envE_def)

lemma spanAt_envE:
  "spanAt (getPositionOfLineAndCharacter envE) (componentFile ''/app/c.ts'' ''template'')
     (Some 0) (Some 1) = Inr (Some \<lparr>spanStart = 1, spanEnd = 28\<rparr>)"
  by (simp add: spanAt_def envE_def envC_def exampleEnv_def componentFile_def componentClass_def
      componentDecorator_def componentCall_def componentCallee_def componentObject_def
      componentAssignment_def componentLiteral_def componentClassName_def afterLastToken_def)

lemma newHost_envF:
  "getTypeAtLocation (fst (checker envF newHost)) componentCallee \<noteq> None"
  "fst (reflector envF (snd (checker envF newHost))) = Inr StaticReflector"
  by (simp_all add: checker_def newHost_def envF_def envC_def exampleEnv_def exampleChecker_def
      reflector_def staticSymbolResolver_def reflectorHost_def Program_getSourceFile_def
      componentFile_def andThen_def)

theorem getDeclarations_records_failure_witness:
  "metadataFailure envE (StaticSymbol ''/app/c.ts'' ''C'')
     = Some (Error ''Unexpected value in decorator'' (Some 0) (Some 1))
   \<and> (\<exists>s'. getDeclarations envE ''/app/c.ts'' newHost
          = (Inr [\<lparr>declarationType = StaticSymbol ''/app/c.ts'' ''C'',
                    declarationSpan = spanOf componentCallee, metadata = None,
                    errors = [\<lparr>errorSpan = \<lparr>spanStart = 1, spanEnd = 28\<rparr>,
                               errorMessage = ''Unexpected value in decorator''\<rparr>]\<rparr>], s')
          \<and> collectedFor s' ''/app/c.ts''
              = [Error ''Unexpected value in decorator'' (Some 0) (Some 1)])
   \<and> metadataFailure envF (StaticSymbol ''/app/c.ts'' ''C'') = Some (Error [] None None)
   \<and> fst (getDeclarationFromNode envF (componentFile ''/app/c.ts'' ''template'')
             (componentClass ''template'') newHost) = Inr None"
proof -
  let ?sf = "componentFile ''/app/c.ts'' ''template''"
  let ?cls = "componentClass ''template''"
  let ?e = "Error ''Unexpected value in decorator'' (Some 0) (Some 1)"
  let ?sF = "snd (declarationOfDirective envE ?sf componentCallee
                    (StaticSymbol (fileName ?sf) (nodeText (componentClassName ''template'')))
                    (snd (reflector envE (snd (checker envE newHost)))))"
  let ?s' = "collectError ?e (fileName ?sf) ?sF"
  have f: "metadataFailure envE (StaticSymbol ''/app/c.ts'' ''C'') = Some ?e"
    by (simp add: metadataFailure_def envE_def directiveFailure_def)
  have f': "metadataFailure envE
              (StaticSymbol (fileName ?sf) (nodeText (componentClassName ''template'')))
            = Some ?e"
    using f by (simp add: componentClass_facts)
  have cF: "collectedFor ?sF ''/app/c.ts'' = []"
    using collected_envE by (simp add: collectedFor_def componentClass_facts)
  have cs: "collectedFor ?s' (fileName ?sf) = [?e]"
    using cF by (simp add: collectedFor_collectError componentClass_facts)
  have loc: "\<forall>e \<in> set (collectedFor ?s' (fileName ?sf)). locatable envE ?sf e"
    unfolding cs using spanAt_envE by (simp add: locatable_def)
  have gF: "getCollectedErrors envE (spanOf componentCallee) ?sf ?sF = Inr []"
    using cF by (simp add: getCollectedErrors_collectedFor componentClass_facts)
  from getDeclarations_records_failure[OF componentClass_facts(1,2,3,4,5,6) newHost_envE f'
      refl refl] loc
  obtain ds d where d: "d = \<lparr>declarationType = StaticSymbol (fileName ?sf)
                                      (nodeText (componentClassName ''template'')),
                 declarationSpan = spanOf componentCallee, metadata = None,
                 errors = ds @ [\<lparr>errorSpan =
                     (case spanAt (getPositionOfLineAndCharacter envE) ?sf (Some 0) (Some 1) of
                        Inr (Some sp) \<Rightarrow> sp | _ \<Rightarrow> spanOf componentCallee),
                     errorMessage = ''Unexpected value in decorator''\<rparr>]\<rparr>"
    and g: "getDeclarationFromNode envE ?sf ?cls newHost = (Inr (Some d), ?s')"
    and ds: "getCollectedErrors envE (spanOf componentCallee) ?sf ?sF = Inr ds"
    and sib: "\<And>pre post result result1 s0.
                getDeclarations_forEachChild envE ?sf pre result s0 = (Inr result1, newHost)
                \<Longrightarrow> getDeclarations_forEachChild envE ?sf (pre @ ?cls # post) result s0
                      = getDeclarations_forEachChild envE ?sf post (result1 @ [d]) ?s'"
    by auto
  from ds gF have "ds = []" by simp
  with d have d': "d = \<lparr>declarationType = StaticSymbol ''/app/c.ts'' ''C'',
                    declarationSpan = spanOf componentCallee, metadata = None,
                    errors = [\<lparr>errorSpan = \<lparr>spanStart = 1, spanEnd = 28\<rparr>,
                               errorMessage = ''Unexpected value in decorator''\<rparr>]\<rparr>"
    unfolding spanAt_envE by (simp add: componentClass_facts)
  have "getDeclarations_forEachChild envE ?sf ([] @ ?cls # []) [] newHost
          = getDeclarations_forEachChild envE ?sf [] ([] @ [d]) ?s'"
    by (rule sib) simp
  then have all: "getDeclarations envE ''/app/c.ts'' newHost = (Inr [d], ?s')"
    by (simp add: getDeclarations_def getSourceFile_envE componentClass_facts)
  from cs have one: "collectedFor ?s' ''/app/c.ts'' = [?e]" by (simp add: componentClass_facts)
  have n: "metadataFailure envF (StaticSymbol ''/app/c.ts'' ''C'') = Some (Error [] None None)"
    by (simp add: metadataFailure_def envF_def)
  then have n': "metadataFailure envF
              (StaticSymbol (fileName ?sf) (nodeText (componentClassName ''template'')))
            = Some (Error [] None None)"
    by (simp add: componentClass_facts)
  from getDeclarations_records_failure[OF componentClass_facts(1,2,3,4,5,6) newHost_envF n'
      refl refl]
  have none: "fst (getDeclarationFromNode envF ?sf ?cls newHost) = Inr None"
    by simp
  from f all d' one n none show ?thesis by blast
qed

theorem getDeclarations_drops_failure_counterexample:
  "metadataFailure envF (StaticSymbol ''/app/c.ts'' ''C'') = Some (Error [] None None)
   \<and> fst (getDeclarations envF ''/app/c.ts'' newHost) = Inr []
   \<and> collectedErrors (snd (getDeclarations envF ''/app/c.ts'' newHost)) = None"
proof -
  have f: "metadataFailure envF (StaticSymbol ''/app/c.ts'' ''C'') = Some (Error [] None None)"
    by (simp add: metadataFailure_def envF_def)
  have g: "fst (getDeclarations envF ''/app/c.ts'' newHost) = Inr []
           \<and> collectedErrors (snd (getDeclarations envF ''/app/c.ts'' newHost)) = None"
    unfolding getDeclarations_def getSourceFile_envE
    by (simp add: declaration_defs envF_def)
  from f g show ?thesis by blast
qed

lemma getDeclarations_nullish_thrown:
  "fst (getDeclarations envN ''/app/c.ts'' newHost)
     = Inl (Error ''TypeError: cannot read property message of undefined'' None None)"
  unfolding getDeclarations_def getSourceFile_envE
  by (simp add: declaration_defs envN_def)

lemma getDeclarations_position_thrown:
  "fst (getDeclarations envP ''/app/c.ts'' newHost)
     = Inl (Error ''Debug Failure. False expression.'' None None)"
  unfolding getDeclarations_def getSourceFile_envE
  by (simp add: declaration_defs envP_def getCollectedErrors_def collectError_def spanAt_def)

end
